theory Spec2Isabelle
  imports Main "HOL-Library.Word" "HOL-Library.Monad_Syntax"
begin

section \<open>C strings and the library functions crelay.c calls\<close>

text \<open>
  A byte array is a list of chars. A pointer into an array is modelled by the list of
  the bytes from the pointer to the end of the array, so that a read which runs off the
  end of the list is a read outside the array. Functions whose behaviour C leaves
  undefined on some input return \<open>None\<close> there.
\<close>

definition NUL :: char where
  "NUL = CHR 0x00"

definition LF :: char where
  "LF = CHR 0x0A"

definition CRLF :: string where
  "CRLF = [CHR 0x0D, CHR 0x0A]"

text \<open>The C string stored at the start of a byte sequence: the bytes before the first NUL.\<close>

definition cstr :: "string \<Rightarrow> string" where
  "cstr m = takeWhile (\<lambda>c. c \<noteq> NUL) m"

text \<open>\<open>strlen\<close>: undefined when the array holds no terminator.\<close>

definition strlen :: "string \<Rightarrow> nat option" where
  "strlen m = (if NUL \<in> set m then Some (length (cstr m)) else None)"

text \<open>\<open>strstr\<close> on C strings: the offset of the first occurrence, \<open>None\<close> for NULL.\<close>

fun strstr :: "string \<Rightarrow> string \<Rightarrow> nat option" where
  "strstr [] needle = (if needle = [] then Some 0 else None)"
| "strstr (c # cs) needle =
     (if take (length needle) (c # cs) = needle then Some 0
      else map_option Suc (strstr cs needle))"

text \<open>\<open>strchr\<close> on a C string: the offset of the first occurrence of the byte.\<close>

fun strchr :: "string \<Rightarrow> char \<Rightarrow> nat option" where
  "strchr [] x = None"
| "strchr (c # cs) x = (if c = x then Some 0 else map_option Suc (strchr cs x))"

definition tolower :: "char \<Rightarrow> char" where
  "tolower c =
     (case map_of (zip ''ABCDEFGHIJKLMNOPQRSTUVWXYZ'' ''abcdefghijklmnopqrstuvwxyz'') c of
        Some l \<Rightarrow> l
      | None \<Rightarrow> c)"

text \<open>\<open>strcasecmp(a, b) == 0\<close> on C strings.\<close>

definition strcasecmp_eq :: "string \<Rightarrow> string \<Rightarrow> bool" where
  "strcasecmp_eq a b = (map tolower a = map tolower b)"

definition isspace :: "char \<Rightarrow> bool" where
  "isspace c = (c \<in> set [CHR '' '', CHR 0x09, CHR 0x0A, CHR 0x0B, CHR 0x0C, CHR 0x0D])"

definition isdigit :: "char \<Rightarrow> bool" where
  "isdigit c = (c \<in> set ''0123456789'')"

definition digit_val :: "char \<Rightarrow> int" where
  "digit_val c = (case map_of (zip ''0123456789'' [0, 1, 2, 3, 4, 5, 6, 7, 8, 9]) c of
                    Some v \<Rightarrow> v
                  | None \<Rightarrow> 0)"

definition INT_MAX :: int where
  "INT_MAX = 2147483647"

definition INT_MIN :: int where
  "INT_MIN = - 2147483648"

text \<open>
  \<open>atoi\<close> reads the bytes at a pointer: white space, an optional sign, decimal digits,
  and stops at the first byte that is none of these (the terminator at the latest). The
  argument is the memory from the pointer to the end of its array; when the scan runs off
  that memory, or the number does not fit an \<open>int\<close>, the C standard leaves the
  behaviour undefined and the model returns \<open>None\<close>.
\<close>

definition atoi :: "string \<Rightarrow> int option" where
  "atoi m =
     (let m1 = dropWhile isspace m;
          neg = (case m1 of [] \<Rightarrow> False | c # _ \<Rightarrow> c = CHR ''-'');
          m2 = (case m1 of [] \<Rightarrow> [] | c # r \<Rightarrow> if c = CHR ''-'' \<or> c = CHR ''+'' then r else m1);
          ds = takeWhile isdigit m2;
          v = foldl (\<lambda>a c. 10 * a + digit_val c) 0 ds;
          r = (if neg then - v else v)
      in if dropWhile isdigit m2 = [] then None
         else if INT_MIN \<le> r \<and> r \<le> INT_MAX then Some r
         else None)"

text \<open>
  \<open>fgets(buf, n, f)\<close> on a stream of bytes: at most \<open>n - 1\<close> bytes, stopping after a
  newline. The result is the bytes stored and the rest of the stream; \<open>None\<close> is the
  NULL returned at the end of the stream, or for \<open>n = 0\<close>. With \<open>n = 1\<close> nothing is
  read and the empty string is stored.
\<close>

fun fgets_line :: "nat \<Rightarrow> string \<Rightarrow> string" where
  "fgets_line k [] = []"
| "fgets_line k (c # cs) =
     (if k = 0 then [] else if c = LF then [c] else c # fgets_line (k - 1) cs)"

definition fgets :: "nat \<Rightarrow> string \<Rightarrow> (string \<times> string) option" where
  "fgets n s =
     (if n = 0 then None
      else if n = 1 then Some ([], s)
      else if s = [] then None
      else let l = fgets_line (n - 1) s in Some (l, drop (length l) s))"

text \<open>
  \<open>strtok(s, " ")\<close>: the next token and the position saved for the following call
  (\<open>None\<close> for the saved position when the token ended at the terminator).
\<close>

definition strtok :: "string \<Rightarrow> (string \<times> string option) option" where
  "strtok s =
     (let s1 = dropWhile (\<lambda>c. c = CHR '' '') s in
      if s1 = [] then None
      else let tok = takeWhile (\<lambda>c. c \<noteq> CHR '' '') s1;
               r = dropWhile (\<lambda>c. c \<noteq> CHR '' '') s1
           in Some (tok, if r = [] then None else Some (tl r)))"

text \<open>\<open>printf("%d")\<close>.\<close>

function show_nat :: "nat \<Rightarrow> string" where
  "show_nat n =
     (if n < 10 then [''0123456789'' ! n]
      else show_nat (n div 10) @ [''0123456789'' ! (n mod 10)])"
  by pat_completeness auto
termination
  by (relation "measure id") auto

definition show_int :: "int \<Rightarrow> string" where
  "show_int i = (if i < 0 then CHR ''-'' # show_nat (nat (- i)) else show_nat (nat i))"

section \<open>Data types of relay_drv.h and data_types.h\<close>

text \<open>
  Modelled from the spec: the headers data_types.h, relay_drv.h and config.h are not part
  of the sources at hand. \<open>relay_state_t\<close> is the enumeration whose values the form
  field \<open>status\<close> carries. crelay.c assigns the result of \<open>atoi\<close> to a variable of
  this type and prints it with \<open>%d\<close>, so a state is modelled by the integer it holds.
\<close>

type_synonym relay_state_t = int

text \<open>Modelled from the spec: status 0 is OFF (data_types.h is missing).\<close>

definition OFF :: relay_state_t where
  "OFF = 0"

text \<open>Modelled from the spec: status 1 is ON (data_types.h is missing).\<close>

definition ON :: relay_state_t where
  "ON = 1"

text \<open>
  Modelled from the spec: the pulse code is the reserved third value of the status, the
  next enumerator after ON (data_types.h is missing).
\<close>

definition PULSE :: relay_state_t where
  "PULSE = 2"

text \<open>
  Modelled from the spec: INVALID is the sentinel that is no hardware state, the last
  enumerator (data_types.h is missing).
\<close>

definition INVALID :: relay_state_t where
  "INVALID = 3"

text \<open>
  Modelled from the spec: channels are numbered from 1 (the macro is missing from the
  sources).
\<close>

definition FIRST_RELAY :: nat where
  "FIRST_RELAY = 1"

text \<open>
  Modelled from the spec: labels exist for the channels 1 to 8, and \<open>rlabels\<close> in
  crelay.c has eight initialisers (the macro is missing from the sources).
\<close>

definition MAX_NUM_RELAYS :: nat where
  "MAX_NUM_RELAYS = 8"

text \<open>The constants that crelay.c defines itself, and those of stdlib.h.\<close>

definition API_URL :: string where
  "API_URL = ''gpio''"

definition RELAY_TAG :: string where
  "RELAY_TAG = ''pin''"

definition STATE_TAG :: string where
  "STATE_TAG = ''status''"

definition SERIAL_TAG :: string where
  "SERIAL_TAG = ''serial''"

definition EXIT_SUCCESS :: int where
  "EXIT_SUCCESS = 0"

definition EXIT_FAILURE :: int where
  "EXIT_FAILURE = 1"

subsection \<open>The card drivers\<close>

text \<open>
  The drivers behind \<open>crelay_detect_relay_card\<close>, \<open>crelay_get_relay\<close> and
  \<open>crelay_set_relay\<close> are external to crelay.c: they are a parameter of the model, a
  record of functions over a hardware state \<open>'h\<close>.
  \<^item> \<open>drv_detect serial h\<close>: \<open>None\<close> is the return value -1; otherwise the port name
    written to \<open>com_port\<close> and the number written to the \<open>uint8_t\<close> relay count.
  \<^item> \<open>drv_get com_port relay serial h\<close>: the return value and the state written
    through the pointer argument, if one is written.
  \<^item> \<open>drv_set com_port relay state serial h\<close>: the return value.
  \<^item> \<open>drv_detect_all h\<close>: \<open>None\<close> is -1, otherwise the name and serial of the cards
    that the loop of \<open>main\<close> prints.
  \<^item> \<open>drv_card_name h\<close>: the name of the detected card's type.
  The channel is the \<open>int\<close> that crelay.c passes; a serial of \<open>None\<close> is NULL.
\<close>

record 'h driver =
  drv_detect :: "string option \<Rightarrow> 'h \<Rightarrow> (string \<times> 8 word) option \<times> 'h"
  drv_get :: "string \<Rightarrow> int \<Rightarrow> string option \<Rightarrow> 'h \<Rightarrow> (int \<times> relay_state_t option) \<times> 'h"
  drv_set :: "string \<Rightarrow> int \<Rightarrow> relay_state_t \<Rightarrow> string option \<Rightarrow> 'h \<Rightarrow> int \<times> 'h"
  drv_detect_all :: "'h \<Rightarrow> (string \<times> string) list option \<times> 'h"
  drv_card_name :: "'h \<Rightarrow> string"

text \<open>Every call that leaves crelay.c towards the hardware, and every \<open>sleep\<close>, is logged.\<close>

datatype call =
    Detect "string option"
  | DetectAll
  | Get string int "string option"
  | Set string int relay_state_t "string option"
  | Sleep nat

record 'h world =
  hw :: 'h
  calls :: "call list"

definition crelay_detect_relay_card ::
  "'h driver \<Rightarrow> string option \<Rightarrow> 'h world \<Rightarrow> (string \<times> 8 word) option \<times> 'h world" where
  "crelay_detect_relay_card D serial w =
     (let (r, h) = drv_detect D serial (hw w)
      in (r, \<lparr>hw = h, calls = calls w @ [Detect serial]\<rparr>))"

definition crelay_get_relay ::
  "'h driver \<Rightarrow> string \<Rightarrow> int \<Rightarrow> string option \<Rightarrow> 'h world
     \<Rightarrow> (int \<times> relay_state_t option) \<times> 'h world" where
  "crelay_get_relay D com_port relay serial w =
     (let (r, h) = drv_get D com_port relay serial (hw w)
      in (r, \<lparr>hw = h, calls = calls w @ [Get com_port relay serial]\<rparr>))"

definition crelay_set_relay ::
  "'h driver \<Rightarrow> string \<Rightarrow> int \<Rightarrow> relay_state_t \<Rightarrow> string option \<Rightarrow> 'h world
     \<Rightarrow> int \<times> 'h world" where
  "crelay_set_relay D com_port relay state serial w =
     (let (r, h) = drv_set D com_port relay state serial (hw w)
      in (r, \<lparr>hw = h, calls = calls w @ [Set com_port relay state serial]\<rparr>))"

definition crelay_detect_all_relay_cards ::
  "'h driver \<Rightarrow> 'h world \<Rightarrow> (string \<times> string) list option \<times> 'h world" where
  "crelay_detect_all_relay_cards D w =
     (let (r, h) = drv_detect_all D (hw w)
      in (r, \<lparr>hw = h, calls = calls w @ [DetectAll]\<rparr>))"

definition sleep :: "nat \<Rightarrow> 'h world \<Rightarrow> 'h world" where
  "sleep seconds w = w\<lparr>calls := calls w @ [Sleep seconds]\<rparr>"

section \<open>The HTTP server: process_http_request\<close>

subsection \<open>Configuration and output\<close>

text \<open>
  Modelled from the spec: \<open>config_t\<close> is declared in config.h, which is not at hand. The
  fields are those that \<open>config_cb\<close> assigns. The pulse duration is a count of whole
  seconds that crelay.c prints with \<open>%u\<close> and passes to \<open>sleep\<close>: an unsigned
  machine integer, whose width \<open>'w\<close> stays a parameter. The other numeric fields hold the
  value of \<open>atoi\<close>; their widths play no role below.
\<close>

record (overloaded) 'w config_t =
  server_iface :: "string option"
  server_port :: int
  relay1_label :: "string option"
  relay2_label :: "string option"
  relay3_label :: "string option"
  relay4_label :: "string option"
  relay5_label :: "string option"
  relay6_label :: "string option"
  relay7_label :: "string option"
  relay8_label :: "string option"
  pulse_duration :: "'w word"
  gpio_num_relays :: int
  gpio_active_value :: int
  relay1_gpio_pin :: int
  relay2_gpio_pin :: int
  relay3_gpio_pin :: int
  relay4_gpio_pin :: int
  relay5_gpio_pin :: int
  relay6_gpio_pin :: int
  relay7_gpio_pin :: int
  relay8_gpio_pin :: int
  sainsmart_num_relays :: int

text \<open>
  What is written to the client. The static HTML that \<open>web_page_header\<close>,
  \<open>web_page_error\<close>, \<open>web_page_footer\<close> and the table of the web page print is kept
  as one item per block, with the values that the format strings insert.
\<close>

datatype html_block =
    Page_head
  | Error_block
  | Page_foot
  | Table_head string string
  | Relay_row int string bool
  | Table_end

datatype out_item =
    Headers int string string
  | Text string
  | Html html_block

definition send_headers :: "int \<Rightarrow> string \<Rightarrow> string \<Rightarrow> out_item list" where
  "send_headers status title mime = [Headers status title mime]"

definition web_page_header :: "out_item list" where
  "web_page_header = send_headers 200 ''OK'' ''text/html'' @ [Html Page_head]"

definition web_page_error :: "out_item list" where
  "web_page_error = [Html Error_block]"

definition web_page_footer :: "out_item list" where
  "web_page_footer = [Html Page_foot]"

text \<open>
  A local array that the source does not initialise holds what the stack held: the
  parameter \<open>junk\<close>, cut or padded to the size of the array.
\<close>

definition stack_array :: "nat \<Rightarrow> 'a \<Rightarrow> 'a list \<Rightarrow> 'a list" where
  "stack_array n d junk = take n (junk @ replicate n d)"

subsection \<open>Reading the form data\<close>

text \<open>\<open>strncpy(dst, src, n)\<close> for a C string \<open>src\<close>: no terminator is stored when
  \<open>src\<close> has \<open>n\<close> bytes or more.\<close>

definition strncpy :: "string \<Rightarrow> string \<Rightarrow> nat \<Rightarrow> string" where
  "strncpy dst src n = take n (src @ replicate n NUL) @ drop n dst"

text \<open>
  \<open>read_httpget_data(buf, data, datalen)\<close>: the result is the return value and the
  content of \<open>data\<close>. \<open>strlen\<close> reads beyond the array when \<open>strncpy\<close> has filled
  it without a terminator.
\<close>

definition read_httpget_data :: "string \<Rightarrow> string \<Rightarrow> nat \<Rightarrow> (int \<times> string) option" where
  "read_httpget_data buf data datalen =
     (let data1 = data[0 := NUL];
          data2 = (case strchr buf (CHR ''?'') of
                     None \<Rightarrow> data1
                   | Some i \<Rightarrow> strncpy data1 (drop (Suc i) buf) datalen)
      in map_option (\<lambda>n. (int n, data2)) (strlen data2))"

text \<open>
  The header loop of \<open>read_httppost_data\<close>: the current \<open>data_len\<close> and the stream
  go in, the final \<open>data_len\<close> and the stream after the empty line come out.
\<close>

function read_header :: "int \<Rightarrow> string \<Rightarrow> (int \<times> string) option" where
  "read_header data_len f =
     (case fgets 256 f of
        None \<Rightarrow> Some (data_len, f)
      | Some (buf, f') \<Rightarrow>
          (case (if strstr (cstr buf) ''Content-Length:'' \<noteq> None
                 then atoi (drop (length ''Content-Length:'') (cstr buf) @ [NUL])
                 else Some data_len) of
             None \<Rightarrow> None
           | Some dl \<Rightarrow> if cstr buf = CRLF then Some (dl, f') else read_header dl f'))"
  by pat_completeness auto

lemma fgets_line_length:
  "0 < k \<Longrightarrow> s \<noteq> [] \<Longrightarrow> 0 < length (fgets_line k s)"
  by (cases s) auto

lemma fgets_line_le: "length (fgets_line k s) \<le> length s"
  by (induction k s rule: fgets_line.induct) auto

lemma fgets_consumes:
  assumes "fgets n f = Some (buf, f')" and "1 < n"
  shows "length f' < length f"
proof -
  from assms have ne: "f \<noteq> []" and f': "f' = drop (length (fgets_line (n - 1) f)) f"
    by (auto simp: fgets_def Let_def split: if_splits)
  from ne assms(2) have "0 < length (fgets_line (n - 1) f)"
    by (intro fgets_line_length) auto
  with ne f' show ?thesis by simp
qed

lemma fgets_256_consumes: "fgets 256 f = Some (buf, f') \<Longrightarrow> length f' < length f"
  using fgets_consumes [of 256 f buf f'] by simp

termination read_header
  by (relation "measure (\<lambda>(data_len, f). length f)") (auto dest: fgets_256_consumes)

text \<open>
  \<open>read_httppost_data(f, data, datalen)\<close>: the return value and the content of
  \<open>data\<close>. The comparison \<open>data_len >= datalen\<close> is made in \<open>size_t\<close>, where a
  negative \<open>data_len\<close> is a huge number.
\<close>

definition read_httppost_data :: "string \<Rightarrow> string \<Rightarrow> nat \<Rightarrow> (int \<times> string) option" where
  "read_httppost_data f data datalen =
     (let data1 = data[0 := NUL] in
      case read_header 0 f of
        None \<Rightarrow> None
      | Some (data_len, f1) \<Rightarrow>
          if data_len < 0 \<or> int datalen \<le> data_len then Some (- 1, data1)
          else (case fgets (nat data_len + 1) f1 of
                  None \<Rightarrow> Some (- 1, data1)
                | Some (l, f2) \<Rightarrow>
                    Some (data_len,
                          (l @ [NUL] @ drop (length l + 1) data1)[nat data_len := NUL])))"

text \<open>
  Lines 564 to 589: the fields of the form data. \<open>relay\<close> starts as 0, \<open>nstate\<close> as
  INVALID and \<open>serial\<close> as NULL. Each value is read at the pointer behind the tag and
  one more byte, wherever in the array that is.
\<close>

definition serial_at :: "string \<Rightarrow> string option" where
  "serial_at m = (if NUL \<in> set m then Some (takeWhile (\<lambda>c. c \<noteq> CHR ''&'') (cstr m)) else None)"

definition decode_formdata ::
  "int \<Rightarrow> string \<Rightarrow> (int \<times> relay_state_t \<times> string option) option" where
  "decode_formdata formdatalen formdata =
     (if 0 < formdatalen then
        do {
          relay \<leftarrow> (case strstr (cstr formdata) RELAY_TAG of
                     None \<Rightarrow> Some 0
                   | Some i \<Rightarrow> atoi (drop (i + length RELAY_TAG + 1) formdata));
          nstate \<leftarrow> (case strstr (cstr formdata) STATE_TAG of
                      None \<Rightarrow> Some INVALID
                    | Some i \<Rightarrow> atoi (drop (i + length STATE_TAG + 1) formdata));
          serial \<leftarrow> (case strstr (cstr formdata) SERIAL_TAG of
                      None \<Rightarrow> Some None
                    | Some i \<Rightarrow> map_option Some (serial_at (drop (i + length SERIAL_TAG + 1) formdata)));
          Some (relay, nstate, serial)
        }
      else Some (0, INVALID, None))"

text \<open>
  Each of the three tags that occurs in the string is followed by at least one byte, the
  \<open>=\<close> of \<open>key=value\<close>: then no field is read behind the terminator of the string.
\<close>

definition tags_have_value :: "string \<Rightarrow> bool" where
  "tags_have_value s =
     (\<forall>tag \<in> set [RELAY_TAG, STATE_TAG, SERIAL_TAG].
        case strstr s tag of None \<Rightarrow> True | Some i \<Rightarrow> i + length tag < length s)"

subsection \<open>Acting on the card and answering\<close>

text \<open>
  \<open>rstate\<close> is a local array of \<open>MAX_NUM_RELAYS\<close> states. The source indexes it
  with \<open>relay - 1\<close> unchecked: an index outside the array is undefined behaviour,
  \<open>None\<close>. \<open>get_into\<close> is a call \<open>crelay_get_relay(com_port, i, &rstate[i-1], serial)\<close>.
\<close>

definition get_into ::
  "'h driver \<Rightarrow> string \<Rightarrow> int \<Rightarrow> string option \<Rightarrow> relay_state_t list \<times> 'h world
     \<Rightarrow> (relay_state_t list \<times> 'h world) option" where
  "get_into D com_port i serial rw =
     (let (rstate, w) = rw in
      if 1 \<le> i \<and> i \<le> int (length rstate) then
        (let ((rc, written), w') = crelay_get_relay D com_port i serial w
         in Some (case written of None \<Rightarrow> rstate | Some v \<Rightarrow> rstate[nat (i - 1) := v], w'))
      else None)"

text \<open>Lines 611 to 639: the action that the form data asks for.\<close>

definition relay_action ::
  "'h driver \<Rightarrow> 'w::len config_t \<Rightarrow> string \<Rightarrow> string option \<Rightarrow> int \<Rightarrow> int \<Rightarrow> relay_state_t
     \<Rightarrow> relay_state_t list \<times> 'h world \<Rightarrow> (relay_state_t list \<times> 'h world) option" where
  "relay_action D config com_port serial formdatalen relay nstate rw =
     (if 0 < formdatalen \<and> relay \<noteq> 0 \<and> nstate \<noteq> INVALID then
        if nstate = PULSE then
          do {
            (rstate, w1) \<leftarrow> get_into D com_port relay serial rw;
            if rstate ! nat (relay - 1) = ON then
              (let (e1, w2) = crelay_set_relay D com_port relay OFF serial w1;
                   w3 = sleep (unat (pulse_duration config)) w2;
                   (e2, w4) = crelay_set_relay D com_port relay ON serial w3
               in Some (rstate, w4))
            else
              (let (e1, w2) = crelay_set_relay D com_port relay ON serial w1;
                   w3 = sleep (unat (pulse_duration config)) w2;
                   (e2, w4) = crelay_set_relay D com_port relay OFF serial w3
               in Some (rstate, w4))
          }
        else
          (let (e, w1) = crelay_set_relay D com_port relay nstate serial (snd rw)
           in Some (fst rw, w1))
      else Some rw)"

text \<open>The channels \<open>FIRST_RELAY\<close> to \<open>last_relay\<close> that the \<open>for\<close> loops run over.\<close>

definition relay_range :: "8 word \<Rightarrow> int list" where
  "relay_range last_relay = map int [FIRST_RELAY ..< Suc (unat last_relay)]"

text \<open>Lines 641 to 645: the loop that reads the state of all relays.\<close>

fun read_all_relays ::
  "'h driver \<Rightarrow> string \<Rightarrow> string option \<Rightarrow> int list \<Rightarrow> relay_state_t list \<times> 'h world
     \<Rightarrow> (relay_state_t list \<times> 'h world) option" where
  "read_all_relays D com_port serial [] rw = Some rw"
| "read_all_relays D com_port serial (i # is) rw =
     (case get_into D com_port i serial rw of
        None \<Rightarrow> None
      | Some rw' \<Rightarrow> read_all_relays D com_port serial is rw')"


text \<open>Lines 647 to 683: the answer, for the API and for the web page.\<close>

definition api_entry :: "relay_state_t list \<Rightarrow> int \<Rightarrow> out_item" where
  "api_entry rstate i =
     Text (''Relay '' @ show_int i @ '':'' @ show_int (rstate ! nat (i - 1)) @ ''<br>'')"

definition page_row :: "string list \<Rightarrow> relay_state_t list \<Rightarrow> int \<Rightarrow> out_item" where
  "page_row rlabels rstate i =
     Html (Relay_row i (rlabels ! nat (i - 1)) (rstate ! nat (i - 1) = ON))"

definition send_response ::
  "'h driver \<Rightarrow> string list \<Rightarrow> string \<Rightarrow> string \<Rightarrow> 8 word \<Rightarrow> relay_state_t list \<Rightarrow> 'h world
     \<Rightarrow> out_item list" where
  "send_response D rlabels url com_port last_relay rstate w =
     (if strstr url API_URL \<noteq> None then
        send_headers 200 ''OK'' ''text/plain'' @ map (api_entry rstate) (relay_range last_relay)
      else
        web_page_header
        @ [Html (Table_head (drv_card_name D (hw w)) com_port)]
        @ map (page_row rlabels rstate) (relay_range last_relay)
        @ [Html Table_end]
        @ web_page_footer)"

text \<open>
  Lines 591 to 690: from the detection of the card to \<open>return 0\<close>. The result is the
  return value, what was written to the client, and the world afterwards.
\<close>

definition serve_request ::
  "'h driver \<Rightarrow> 'w::len config_t \<Rightarrow> string list \<Rightarrow> relay_state_t list \<Rightarrow> string \<Rightarrow> int
     \<Rightarrow> int \<times> relay_state_t \<times> string option \<Rightarrow> 'h world
     \<Rightarrow> (int \<times> out_item list \<times> 'h world) option" where
  "serve_request D config rlabels rstate url formdatalen flds w =
     (let (relay, nstate, serial) = flds in
      case crelay_detect_relay_card D serial w of
        (None, w1) \<Rightarrow>
          Some (0,
                if strstr url API_URL \<noteq> None then
                  send_headers 503 ''No compatible device detected'' ''text/plain''
                  @ [Text ''ERROR: No compatible device detected'']
                else web_page_header @ web_page_error @ web_page_footer,
                w1)
      | (Some (com_port, last_relay), w1) \<Rightarrow>
          do {
            rw2 \<leftarrow> relay_action D config com_port serial formdatalen relay nstate (rstate, w1);
            (rstate3, w3) \<leftarrow> read_all_relays D com_port serial (relay_range last_relay) rw2;
            Some (0, send_response D rlabels url com_port last_relay rstate3 w3, w3)
          })"

text \<open>Lines 554 to 589: the check of \<open>formdatalen\<close> and the decoding of the fields.\<close>

definition answer_request ::
  "'h driver \<Rightarrow> 'w::len config_t \<Rightarrow> string list \<Rightarrow> relay_state_t list \<Rightarrow> string
     \<Rightarrow> int \<times> string \<Rightarrow> 'h world \<Rightarrow> (int \<times> out_item list \<times> 'h world) option" where
  "answer_request D config rlabels rstate url fd w =
     (let (formdatalen, formdata) = fd in
      if formdatalen < 0 then
        Some (0, send_headers 500 ''Internal Error'' ''text/html'' @ [Text (''ERROR: Invalid Input. '' @ CRLF)], w)
      else
        do {
          flds \<leftarrow> decode_formdata formdatalen formdata;
          serve_request D config rlabels rstate url formdatalen flds w
        })"

text \<open>
  What one connection brings: the bytes that the client sends, and what the stack holds
  where the arrays \<open>formdata\<close> and \<open>rstate\<close> come to lie.
\<close>

record connection =
  sock :: string
  stack_formdata :: string
  stack_rstate :: "relay_state_t list"

text \<open>
  Lines 505 to 550: the request line, the method, and the form data read by the method's
  reader. \<open>Inl\<close> is an early \<open>return\<close> with its value, \<open>Inr\<close> the URL with the
  length and content of \<open>formdata\<close>.
\<close>

definition read_request :: "connection \<Rightarrow> (int + string \<times> int \<times> string) option" where
  "read_request c =
     (let formdata = (stack_array 64 NUL (stack_formdata c))[0 := NUL] in
      case fgets 256 (sock c) of
        None \<Rightarrow> Some (Inl (- 1))
      | Some (buf, fin) \<Rightarrow>
          (case strtok (cstr buf) of
             None \<Rightarrow> Some (Inl (- 1))
           | Some (method, saved) \<Rightarrow>
               (case (case saved of None \<Rightarrow> None | Some r \<Rightarrow> strtok r) of
                  None \<Rightarrow> Some (Inl (- 2))
                | Some (url, saved') \<Rightarrow>
                    if strcasecmp_eq method ''POST'' then
                      map_option (\<lambda>fd. Inr (url, fd)) (read_httppost_data fin formdata 64)
                    else if strcasecmp_eq method ''GET'' then
                      map_option (\<lambda>fd. Inr (url, fd)) (read_httpget_data url formdata 64)
                    else Some (Inl (- 3)))))"

text \<open>
  \<open>process_http_request\<close>. The globals \<open>config\<close> and \<open>rlabels\<close> are read and never
  written, so they are arguments. The result is the return value, what was written to
  the client and the world afterwards; \<open>None\<close> is undefined behaviour of the C code.
\<close>

definition process_http_request ::
  "'h driver \<Rightarrow> 'w::len config_t \<Rightarrow> string list \<Rightarrow> connection \<Rightarrow> 'h world
     \<Rightarrow> (int \<times> out_item list \<times> 'h world) option" where
  "process_http_request D config rlabels c w =
     (case read_request c of
        None \<Rightarrow> None
      | Some (Inl e) \<Rightarrow> Some (e, [], w)
      | Some (Inr (url, fd)) \<Rightarrow>
          answer_request D config rlabels (stack_array MAX_NUM_RELAYS 0 (stack_rstate c)) url fd w)"

subsection \<open>The request as the client sends it\<close>

text \<open>
  The bytes of a request: the request line with its three parts, header lines that each
  end in CR LF, an empty line, and the body. \<open>fgets\<close> reads a line of up to 255 bytes
  in one piece, so a header line has at most 253 bytes before its CR LF; a NUL byte would
  end the string that the line is searched as.
\<close>

definition request_line :: "string \<Rightarrow> string \<Rightarrow> string \<Rightarrow> string" where
  "request_line method url version = method @ '' '' @ url @ '' '' @ version @ CRLF"

definition header_block :: "string list \<Rightarrow> string" where
  "header_block ls = concat (map (\<lambda>l. l @ CRLF) ls) @ CRLF"

definition header_line :: "string \<Rightarrow> bool" where
  "header_line l = (l \<noteq> [] \<and> LF \<notin> set l \<and> NUL \<notin> set l \<and> length l \<le> 253)"

text \<open>A request target that \<open>strtok\<close> returns whole: not empty, no space, NUL or newline.\<close>

definition url_token :: "string \<Rightarrow> bool" where
  "url_token t = (t \<noteq> [] \<and> CHR '' '' \<notin> set t \<and> NUL \<notin> set t \<and> LF \<notin> set t)"

subsection \<open>A card for the examples\<close>

text \<open>
  A driver to run the model on: the hardware is the list of the states of its relays, and
  no card is attached when the list is empty. \<open>get\<close> and \<open>set\<close> refuse a channel that
  the card does not have.
\<close>

definition example_card :: "relay_state_t list driver" where
  "example_card =
     \<lparr>drv_detect = (\<lambda>serial h. (if h = [] then None else Some (''/dev/ttyUSB0'', of_nat (length h)), h)),
      drv_get = (\<lambda>com_port relay serial h.
                   if 1 \<le> relay \<and> relay \<le> int (length h)
                   then ((0, Some (h ! nat (relay - 1))), h) else ((- 1, None), h)),
      drv_set = (\<lambda>com_port relay state serial h.
                   if 1 \<le> relay \<and> relay \<le> int (length h)
                   then (0, h[nat (relay - 1) := state]) else (- 1, h)),
      drv_detect_all = (\<lambda>h. (if h = [] then None else Some [(''Example card'', ''A0001'')], h)),
      drv_card_name = (\<lambda>h. ''Example card'')\<rparr>"

text \<open>
  The same card with a read-out that fails: \<open>get\<close> returns -1 and stores no state,
  \<open>set\<close> works as before.
\<close>

definition unreadable_card :: "relay_state_t list driver" where
  "unreadable_card = example_card\<lparr>drv_get := (\<lambda>com_port relay serial h. ((- 1, None), h))\<rparr>"

definition example_config :: "8 config_t" where
  "example_config =
     \<lparr>server_iface = None, server_port = 0,
      relay1_label = None, relay2_label = None, relay3_label = None, relay4_label = None,
      relay5_label = None, relay6_label = None, relay7_label = None, relay8_label = None,
      pulse_duration = 1, gpio_num_relays = 0, gpio_active_value = 0,
      relay1_gpio_pin = 0, relay2_gpio_pin = 0, relay3_gpio_pin = 0, relay4_gpio_pin = 0,
      relay5_gpio_pin = 0, relay6_gpio_pin = 0, relay7_gpio_pin = 0, relay8_gpio_pin = 0,
      sainsmart_num_relays = 0\<rparr>"

definition default_rlabels :: "string list" where
  "default_rlabels =
     [''My appliance 1'', ''My appliance 2'', ''My appliance 3'', ''My appliance 4'',
      ''My appliance 5'', ''My appliance 6'', ''My appliance 7'', ''My appliance 8'']"

definition request :: "string \<Rightarrow> connection" where
  "request bytes = \<lparr>sock = bytes, stack_formdata = [], stack_rstate = []\<rparr>"

section \<open>The program: main\<close>

subsection \<open>Loading the configuration\<close>

definition MATCH :: "string \<Rightarrow> string \<Rightarrow> string \<Rightarrow> string \<Rightarrow> bool" where
  "MATCH section name s n = (section = s \<and> name = n)"

text \<open>
  \<open>config_cb\<close>: the return value and the configuration after the assignment. The
  conversion of the \<open>int\<close> to the unsigned field of the pulse duration is
  \<open>word_of_int\<close>.
\<close>

definition config_cb ::
  "'w::len config_t \<Rightarrow> string \<Rightarrow> string \<Rightarrow> string \<Rightarrow> (int \<times> 'w config_t) option" where
  "config_cb pconfig section name v =
     (if MATCH section name ''HTTP server'' ''server_iface''
        then Some (0, pconfig\<lparr>server_iface := Some v\<rparr>)
      else if MATCH section name ''HTTP server'' ''server_port''
        then map_option (\<lambda>n. (0, pconfig\<lparr>server_port := n\<rparr>)) (atoi (v @ [NUL]))
      else if MATCH section name ''HTTP server'' ''relay1_label''
        then Some (0, pconfig\<lparr>relay1_label := Some v\<rparr>)
      else if MATCH section name ''HTTP server'' ''relay2_label''
        then Some (0, pconfig\<lparr>relay2_label := Some v\<rparr>)
      else if MATCH section name ''HTTP server'' ''relay3_label''
        then Some (0, pconfig\<lparr>relay3_label := Some v\<rparr>)
      else if MATCH section name ''HTTP server'' ''relay4_label''
        then Some (0, pconfig\<lparr>relay4_label := Some v\<rparr>)
      else if MATCH section name ''HTTP server'' ''relay5_label''
        then Some (0, pconfig\<lparr>relay5_label := Some v\<rparr>)
      else if MATCH section name ''HTTP server'' ''relay6_label''
        then Some (0, pconfig\<lparr>relay6_label := Some v\<rparr>)
      else if MATCH section name ''HTTP server'' ''relay7_label''
        then Some (0, pconfig\<lparr>relay7_label := Some v\<rparr>)
      else if MATCH section name ''HTTP server'' ''relay8_label''
        then Some (0, pconfig\<lparr>relay8_label := Some v\<rparr>)
      else if MATCH section name ''HTTP server'' ''pulse_duration''
        then map_option (\<lambda>n. (0, pconfig\<lparr>pulse_duration := word_of_int n\<rparr>)) (atoi (v @ [NUL]))
      else if MATCH section name ''GPIO drv'' ''num_relays''
        then map_option (\<lambda>n. (0, pconfig\<lparr>gpio_num_relays := n\<rparr>)) (atoi (v @ [NUL]))
      else if MATCH section name ''GPIO drv'' ''active_value''
        then map_option (\<lambda>n. (0, pconfig\<lparr>gpio_active_value := n\<rparr>)) (atoi (v @ [NUL]))
      else if MATCH section name ''GPIO drv'' ''relay1_gpio_pin''
        then map_option (\<lambda>n. (0, pconfig\<lparr>relay1_gpio_pin := n\<rparr>)) (atoi (v @ [NUL]))
      else if MATCH section name ''GPIO drv'' ''relay2_gpio_pin''
        then map_option (\<lambda>n. (0, pconfig\<lparr>relay2_gpio_pin := n\<rparr>)) (atoi (v @ [NUL]))
      else if MATCH section name ''GPIO drv'' ''relay3_gpio_pin''
        then map_option (\<lambda>n. (0, pconfig\<lparr>relay3_gpio_pin := n\<rparr>)) (atoi (v @ [NUL]))
      else if MATCH section name ''GPIO drv'' ''relay4_gpio_pin''
        then map_option (\<lambda>n. (0, pconfig\<lparr>relay4_gpio_pin := n\<rparr>)) (atoi (v @ [NUL]))
      else if MATCH section name ''GPIO drv'' ''relay5_gpio_pin''
        then map_option (\<lambda>n. (0, pconfig\<lparr>relay5_gpio_pin := n\<rparr>)) (atoi (v @ [NUL]))
      else if MATCH section name ''GPIO drv'' ''relay6_gpio_pin''
        then map_option (\<lambda>n. (0, pconfig\<lparr>relay6_gpio_pin := n\<rparr>)) (atoi (v @ [NUL]))
      else if MATCH section name ''GPIO drv'' ''relay7_gpio_pin''
        then map_option (\<lambda>n. (0, pconfig\<lparr>relay7_gpio_pin := n\<rparr>)) (atoi (v @ [NUL]))
      else if MATCH section name ''GPIO drv'' ''relay8_gpio_pin''
        then map_option (\<lambda>n. (0, pconfig\<lparr>relay8_gpio_pin := n\<rparr>)) (atoi (v @ [NUL]))
      else if MATCH section name ''Sainsmart drv'' ''num_relays''
        then map_option (\<lambda>n. (0, pconfig\<lparr>sainsmart_num_relays := n\<rparr>)) (atoi (v @ [NUL]))
      else Some (- 1, pconfig))"

text \<open>\<open>memset((void*)&config, 0, sizeof(config_t))\<close>.\<close>

definition zero_config :: "'w::len config_t" where
  "zero_config =
     \<lparr>server_iface = None, server_port = 0,
      relay1_label = None, relay2_label = None, relay3_label = None, relay4_label = None,
      relay5_label = None, relay6_label = None, relay7_label = None, relay8_label = None,
      pulse_duration = 0, gpio_num_relays = 0, gpio_active_value = 0,
      relay1_gpio_pin = 0, relay2_gpio_pin = 0, relay3_gpio_pin = 0, relay4_gpio_pin = 0,
      relay5_gpio_pin = 0, relay6_gpio_pin = 0, relay7_gpio_pin = 0, relay8_gpio_pin = 0,
      sainsmart_num_relays = 0\<rparr>"

text \<open>
  What the process meets outside crelay.c. \<open>conf_parse\<close> is external: its effect on
  \<open>config\<close> is the sequence of calls of \<open>config_cb\<close> that it makes, with section,
  name and value, and it returns \<open>conf_rc\<close>. The flags say whether \<open>bind\<close>,
  \<open>listen\<close> and \<open>daemon\<close> succeed; \<open>connections\<close> are the connections that
  \<open>accept\<close> hands out before it fails; \<open>euid\<close> is the effective user id and
  \<open>stack_main_rstate\<close> what the stack holds where \<open>rstate\<close> of \<open>main\<close> lies.
\<close>

record environment =
  conf_calls :: "(string \<times> string \<times> string) list"
  conf_rc :: int
  bind_ok :: bool
  listen_ok :: bool
  daemon_ok :: bool
  connections :: "connection list"
  euid :: nat
  stack_main_rstate :: relay_state_t

fun conf_parse ::
  "(string \<times> string \<times> string) list \<Rightarrow> 'w::len config_t \<Rightarrow> 'w config_t option" where
  "conf_parse [] pconfig = Some pconfig"
| "conf_parse ((section, name, v) # rest) pconfig =
     (case config_cb pconfig section name v of
        None \<Rightarrow> None
      | Some (rc, pconfig') \<Rightarrow> conf_parse rest pconfig')"

text \<open>
  \<open>strcpy(rlabels[i], label)\<close> into the array of 32 bytes; a longer label overruns
  it.
\<close>

definition set_label :: "nat \<Rightarrow> string \<Rightarrow> string list \<Rightarrow> string list option" where
  "set_label i label rlabels = (if length label < 32 then Some (rlabels[i := label]) else None)"

definition config_label :: "nat \<Rightarrow> string option \<Rightarrow> string list \<Rightarrow> string list option" where
  "config_label i label rlabels =
     (case label of None \<Rightarrow> Some rlabels | Some l \<Rightarrow> set_label i l rlabels)"

text \<open>Lines 819 to 827: the labels of the configuration file.\<close>

definition config_labels :: "'w::len config_t \<Rightarrow> string list \<Rightarrow> string list option" where
  "config_labels config rlabels =
     do {
       l1 \<leftarrow> config_label 0 (relay1_label config) rlabels;
       l2 \<leftarrow> config_label 1 (relay2_label config) l1;
       l3 \<leftarrow> config_label 2 (relay3_label config) l2;
       l4 \<leftarrow> config_label 3 (relay4_label config) l3;
       l5 \<leftarrow> config_label 4 (relay5_label config) l4;
       l6 \<leftarrow> config_label 5 (relay6_label config) l5;
       l7 \<leftarrow> config_label 6 (relay7_label config) l6;
       config_label 7 (relay8_label config) l7
     }"

text \<open>Lines 856 to 860: the labels of the command line, \<open>argv[2]\<close> onwards.\<close>

fun argv_labels :: "nat \<Rightarrow> string list \<Rightarrow> string list \<Rightarrow> string list option" where
  "argv_labels i [] rlabels = Some rlabels"
| "argv_labels i (a # as) rlabels =
     (if i < MAX_NUM_RELAYS then
        (case set_label i a rlabels of
           None \<Rightarrow> None
         | Some rlabels' \<Rightarrow> argv_labels (Suc i) as rlabels')
      else Some rlabels)"

text \<open>
  Lines 789 to 860: \<open>config\<close> and \<open>rlabels\<close> as the server will use them. The
  messages to syslog, the interface and the port are left out.
\<close>

definition daemon_setup ::
  "environment \<Rightarrow> string list \<Rightarrow> ('w::len config_t \<times> string list) option" where
  "daemon_setup env argv =
     do {
       config1 \<leftarrow> conf_parse (conf_calls env) zero_config;
       rlabels1 \<leftarrow> (if 0 \<le> conf_rc env then config_labels config1 default_rlabels
                    else Some default_rlabels);
       let config2 = (if pulse_duration config1 = 0 then config1\<lparr>pulse_duration := 1\<rparr>
                      else config1);
       rlabels2 \<leftarrow> argv_labels 0 (drop 2 argv) rlabels1;
       Some (config2, rlabels2)
     }"

subsection \<open>The accept loop\<close>

text \<open>
  Lines 894 to 905: one connection after the other until \<open>accept\<close> fails. The result
  is what was written to each connection and the world at the end.
\<close>

fun accept_loop ::
  "'h driver \<Rightarrow> 'w::len config_t \<Rightarrow> string list \<Rightarrow> connection list \<Rightarrow> 'h world
     \<Rightarrow> (out_item list list \<times> 'h world) option" where
  "accept_loop D config rlabels [] w = Some ([], w)"
| "accept_loop D config rlabels (c # cs) w =
     (case process_http_request D config rlabels c w of
        None \<Rightarrow> None
      | Some (rc, out, w') \<Rightarrow>
          (case accept_loop D config rlabels cs w' of
             None \<Rightarrow> None
           | Some (outs, w'') \<Rightarrow> Some (out # outs, w'')))"

text \<open>
  Lines 771 to 907, the daemon mode: the exit code, the configuration in force, what the
  connections were answered, and the world.
\<close>

definition daemon_mode ::
  "'h driver \<Rightarrow> environment \<Rightarrow> string list \<Rightarrow> 'h world
     \<Rightarrow> (int \<times> 'w::len config_t \<times> out_item list list \<times> 'h world) option" where
  "daemon_mode D env argv w =
     do {
       (config, rlabels) \<leftarrow> daemon_setup env argv;
       if \<not> bind_ok env then Some (EXIT_FAILURE, config, [], w)
       else if \<not> listen_ok env then Some (EXIT_FAILURE, config, [], w)
       else if argv ! 1 = ''-D'' \<and> \<not> daemon_ok env then Some (EXIT_FAILURE, config, [], w)
       else
         do {
           let (r, w1) = crelay_detect_relay_card D None w;
           (outs, w2) \<leftarrow> accept_loop D config rlabels (connections env) w1;
           Some (EXIT_SUCCESS, config, outs, w2)
         }
     }"

subsection \<open>The command line\<close>

text \<open>
  What the command line mode prints: the usage text and the four lines of advice on
  permissions as one item each, every other \<open>printf\<close> with its text.
\<close>

datatype cli_out = Usage | Permission_hint | Printed string

definition print_usage :: "cli_out list" where
  "print_usage = [Usage]"

definition no_device_lines :: "nat \<Rightarrow> cli_out list" where
  "no_device_lines uid =
     Printed (''** No compatible device detected **'' @ [LF]) #
     (if uid \<noteq> 0 then [Permission_hint] else [])"

text \<open>The loop of the \<open>-i\<close> command, which numbers the cards from 1.\<close>

fun card_lines :: "nat \<Rightarrow> (string \<times> string) list \<Rightarrow> cli_out list" where
  "card_lines i [] = []"
| "card_lines i ((cname, serial) # cards) =
     Printed (''  #'' @ show_nat i @ [CHR 0x09] @ cname @ '' (serial '' @ serial @ '')'' @ [LF])
     # card_lines (Suc i) cards"

text \<open>
  Lines 968 to 997: the \<open>switch\<close> on \<open>argc\<close> once a card is detected. \<open>argv\<close> has
  \<open>argc + 1\<close> entries, the last one NULL; an index beyond them, and \<open>atoi\<close> or
  \<open>strcmp\<close> of NULL, is undefined.
\<close>

definition arg :: "string list \<Rightarrow> nat \<Rightarrow> string option" where
  "arg argv i = (if i < length argv then Some (argv ! i) else None)"

definition run_command ::
  "'h driver \<Rightarrow> environment \<Rightarrow> string list \<Rightarrow> nat \<Rightarrow> string \<Rightarrow> string option \<Rightarrow> 'h world
     \<Rightarrow> (int \<times> cli_out list \<times> 'h world) option" where
  "run_command D env argv argn com_port serial w =
     (if length argv = 2 \<or> length argv = 4 then
        do {
          a \<leftarrow> arg argv argn;
          relay \<leftarrow> atoi (a @ [NUL]);
          let ((rc, written), w1) = crelay_get_relay D com_port relay serial w;
          let rstate = (case written of None \<Rightarrow> stack_main_rstate env | Some v \<Rightarrow> v);
          if rc = 0 then
            Some (EXIT_SUCCESS,
                  [Printed (''Relay '' @ show_int relay @ '' is '' @
                            (if rstate = ON then ''on'' else ''off'') @ [LF])],
                  w1)
          else Some (EXIT_FAILURE, [], w1)
        }
      else if length argv = 3 \<or> length argv = 5 then
        do {
          state \<leftarrow> arg argv (argn + 1);
          if state = ''on'' \<or> state = ''ON'' then
            do {
              a \<leftarrow> arg argv argn;
              relay \<leftarrow> atoi (a @ [NUL]);
              let (err, w1) = crelay_set_relay D com_port relay ON serial w;
              Some (if err \<noteq> 0 then EXIT_FAILURE else EXIT_SUCCESS, [], w1)
            }
          else if state = ''off'' \<or> state = ''OFF'' then
            do {
              a \<leftarrow> arg argv argn;
              relay \<leftarrow> atoi (a @ [NUL]);
              let (err, w1) = crelay_set_relay D com_port relay OFF serial w;
              Some (if err \<noteq> 0 then EXIT_FAILURE else EXIT_SUCCESS, [], w1)
            }
          else Some (EXIT_FAILURE, print_usage, w)
        }
      else Some (EXIT_SUCCESS, print_usage, w))"

text \<open>Lines 933 to 946: \<open>argn\<close> and \<open>serial\<close> after the option \<open>-s\<close>.\<close>

definition cli_argn :: "string list \<Rightarrow> nat" where
  "cli_argn argv = (if argv ! 1 = ''-s'' then 3 else 1)"

definition cli_serial :: "string list \<Rightarrow> string option" where
  "cli_serial argv = (if argv ! 1 = ''-s'' then Some (argv ! 2) else None)"

text \<open>
  \<open>main\<close>: the exit status, what was printed, and the world. The status of the
  \<open>return -1\<close> of the \<open>-i\<close> command is kept as -1. \<open>argv\<close> holds the program name
  and the arguments. In the daemon mode the field of the pulse duration is taken to be
  8 bits wide; \<open>daemon_mode\<close> itself is stated for every width.
\<close>

definition main ::
  "'h driver \<Rightarrow> environment \<Rightarrow> string list \<Rightarrow> 'h world \<Rightarrow> (int \<times> cli_out list \<times> 'h world) option" where
  "main D env argv w =
     (if length argv = 0 then None
      else if length argv = 1 then Some (EXIT_SUCCESS, print_usage, w)
      else if argv ! 1 = ''-d'' \<or> argv ! 1 = ''-D'' then
        map_option (\<lambda>(code, config :: 8 config_t, outs, w'). (code, [], w')) (daemon_mode D env argv w)
      else if argv ! 1 = ''-i'' then
        (case crelay_detect_all_relay_cards D w of
           (None, w1) \<Rightarrow> Some (- 1, [Printed (''No compatible device detected.'' @ [LF])], w1)
         | (Some cards, w1) \<Rightarrow>
             Some (EXIT_SUCCESS,
                   Printed ([LF] @ ''Detected relay cards:'' @ [LF]) # card_lines 1 cards, w1))
      else if argv ! 1 = ''-s'' \<and> \<not> 2 < length argv then Some (EXIT_FAILURE, print_usage, w)
      else
        (case crelay_detect_relay_card D (cli_serial argv) w of
           (None, w1) \<Rightarrow> Some (EXIT_FAILURE, no_device_lines (euid env), w1)
         | (Some (com_port, num_relays), w1) \<Rightarrow>
             run_command D env argv (cli_argn argv) com_port (cli_serial argv) w1))"

text \<open>An environment for the examples: no configuration file, no connection.\<close>

definition example_env :: environment where
  "example_env =
     \<lparr>conf_calls = [], conf_rc = - 1, bind_ok = True, listen_ok = True, daemon_ok = True,
      connections = [], euid = 1000, stack_main_rstate = 0\<rparr>"

section \<open>Properties of the HTTP server\<close>

text \<open>
  A request that is read, found well-formed and decoded is answered by the part of
  \<open>process_http_request\<close> that starts with the detection of the card.
\<close>

lemma process_http_request_served:
  assumes "read_request c = Some (Inr (url, formdatalen, formdata))"
    and "0 \<le> formdatalen"
    and "decode_formdata formdatalen formdata = Some flds"
  shows "process_http_request D config rlabels c w =
           serve_request D config rlabels (stack_array MAX_NUM_RELAYS 0 (stack_rstate c))
             url formdatalen flds w"
  using assms by (simp add: process_http_request_def answer_request_def)

subsection \<open>The steps after the detection\<close>

text \<open>
  What each step adds to the log of driver calls. The loop over the channels asks the
  driver once per channel, in order, and keeps the size of \<open>rstate\<close>.
\<close>

lemma length_stack_array [simp]: "length (stack_array n d junk) = n"
  by (simp add: stack_array_def)

lemma relay_range_bounds:
  assumes "unat last_relay \<le> n" and "i \<in> set (relay_range last_relay)"
  shows "1 \<le> i \<and> i \<le> int n"
proof -
  from assms(2) obtain k where "i = int k" and "1 \<le> k" and "k \<le> unat last_relay"
    unfolding relay_range_def FIRST_RELAY_def by auto
  with assms(1) show ?thesis by linarith
qed

lemma get_into_in_range:
  assumes "1 \<le> i" and "i \<le> int (length rstate)"
    and "drv_get D com_port i serial (hw w) = ((rc, written), h')"
  shows "get_into D com_port i serial (rstate, w) =
           Some (case written of None \<Rightarrow> rstate | Some v \<Rightarrow> rstate[nat (i - 1) := v],
                 \<lparr>hw = h', calls = calls w @ [Get com_port i serial]\<rparr>)"
  using assms by (simp add: get_into_def crelay_get_relay_def)

lemma get_into_calls:
  assumes "1 \<le> i" and "i \<le> int (length rstate)"
  shows "\<exists>rstate' h'. get_into D com_port i serial (rstate, w) =
           Some (rstate', \<lparr>hw = h', calls = calls w @ [Get com_port i serial]\<rparr>)
           \<and> length rstate' = length rstate"
proof -
  obtain rc written h' where g: "drv_get D com_port i serial (hw w) = ((rc, written), h')"
    by (metis prod.exhaust)
  show ?thesis
    unfolding get_into_in_range [OF assms g] by (cases written) auto
qed

lemma read_all_relays_calls:
  assumes "\<forall>i \<in> set is. 1 \<le> i \<and> i \<le> int (length rstate)"
  shows "\<exists>rstate' h'. read_all_relays D com_port serial is (rstate, w) =
           Some (rstate', \<lparr>hw = h', calls = calls w @ map (\<lambda>i. Get com_port i serial) is\<rparr>)
           \<and> length rstate' = length rstate"
  using assms
proof (induction "is" arbitrary: rstate w)
  case Nil
  then show ?case by (cases w) simp
next
  case (Cons i "is")
  from Cons.prems obtain rstate1 h1 where
    g: "get_into D com_port i serial (rstate, w) =
          Some (rstate1, \<lparr>hw = h1, calls = calls w @ [Get com_port i serial]\<rparr>)"
    and l: "length rstate1 = length rstate"
    using get_into_calls [of i rstate D com_port serial w] by auto
  from Cons.prems l have "\<forall>i \<in> set is. 1 \<le> i \<and> i \<le> int (length rstate1)" by simp
  from Cons.IH [OF this, of "\<lparr>hw = h1, calls = calls w @ [Get com_port i serial]\<rparr>"] g l
  show ?case by auto
qed

lemma serve_request_detected:
  assumes "drv_detect D serial (hw w) = (Some (com_port, last_relay), h1)"
  shows "serve_request D config rlabels rstate url formdatalen (relay, nstate, serial) w =
           do {
             rw2 \<leftarrow> relay_action D config com_port serial formdatalen relay nstate
                      (rstate, \<lparr>hw = h1, calls = calls w @ [Detect serial]\<rparr>);
             (rstate3, w3) \<leftarrow> read_all_relays D com_port serial (relay_range last_relay) rw2;
             Some (0, send_response D rlabels url com_port last_relay rstate3 w3, w3)
           }"
  using assms by (simp add: serve_request_def crelay_detect_relay_card_def)

lemma relay_action_none:
  "\<not> (0 < formdatalen \<and> relay \<noteq> 0 \<and> nstate \<noteq> INVALID) \<Longrightarrow>
   relay_action D config com_port serial formdatalen relay nstate rw = Some rw"
  by (auto simp: relay_action_def)

lemma relay_action_set:
  assumes "0 < formdatalen" "relay \<noteq> 0" "nstate \<noteq> INVALID" "nstate \<noteq> PULSE"
  shows "\<exists>h'. relay_action D config com_port serial formdatalen relay nstate (rstate, w) =
           Some (rstate, \<lparr>hw = h', calls = calls w @ [Set com_port relay nstate serial]\<rparr>)"
  using assms
  by (simp add: relay_action_def crelay_set_relay_def split: prod.splits)

lemma relay_action_pulse:
  assumes "0 < formdatalen" "1 \<le> relay" "relay \<le> int (length rstate)"
    and "drv_get D com_port relay serial (hw w) = ((rc, written), h2)"
    and "observed = (case written of None \<Rightarrow> rstate ! nat (relay - 1) | Some v \<Rightarrow> v)"
  shows "\<exists>h' rstate'. relay_action D config com_port serial formdatalen relay PULSE (rstate, w) =
           Some (rstate',
                 \<lparr>hw = h',
                    calls = calls w @
                      [Get com_port relay serial,
                       Set com_port relay (if observed = ON then OFF else ON) serial,
                       Sleep (unat (pulse_duration config)),
                       Set com_port relay (if observed = ON then ON else OFF) serial]\<rparr>)
           \<and> length rstate' = length rstate"
proof -
  have nth: "(case written of None \<Rightarrow> rstate | Some v \<Rightarrow> rstate[nat (relay - 1) := v]) ! nat (relay - 1) = observed"
    using assms(2,3,5) by (cases written) auto
  show ?thesis
    using assms(1,2) nth
    by (cases written)
      (auto simp: relay_action_def get_into_in_range [OF assms(2-4)] crelay_set_relay_def sleep_def
        INVALID_def PULSE_def split: prod.splits)
qed






lemma length_relay_range [simp]: "length (relay_range last_relay) = unat last_relay"
  by (simp add: relay_range_def FIRST_RELAY_def)


text \<open>
  The log of a whole request whose card is detected: the detection, the calls of the
  action, and one \<open>get\<close> per channel.
\<close>

lemma served_calls:
  assumes "read_request c = Some (Inr (url, formdatalen, formdata))"
    and "0 \<le> formdatalen"
    and "decode_formdata formdatalen formdata = Some (relay, nstate, serial)"
    and "drv_detect D serial (hw w) = (Some (com_port, last_relay), h1)"
    and "unat last_relay \<le> MAX_NUM_RELAYS"
    and "relay_action D config com_port serial formdatalen relay nstate
           (stack_array MAX_NUM_RELAYS 0 (stack_rstate c),
            \<lparr>hw = h1, calls = calls w @ [Detect serial]\<rparr>) =
         Some (rstate2, \<lparr>hw = h2, calls = (calls w @ [Detect serial]) @ new\<rparr>)"
    and "length rstate2 = MAX_NUM_RELAYS"
  shows "\<exists>rstate w'.
           process_http_request D config rlabels c w =
             Some (0, send_response D rlabels url com_port last_relay rstate w', w')
           \<and> calls w' = calls w @ [Detect serial] @ new
                 @ map (\<lambda>i. Get com_port i serial) (relay_range last_relay)"
proof -
  define w2 where "w2 = \<lparr>hw = h2, calls = (calls w @ [Detect serial]) @ new\<rparr>"
  have act: "relay_action D config com_port serial formdatalen relay nstate
           (stack_array MAX_NUM_RELAYS 0 (stack_rstate c),
            \<lparr>hw = h1, calls = calls w @ [Detect serial]\<rparr>) = Some (rstate2, w2)"
    using assms(6) by (simp add: w2_def)
  have "\<forall>i \<in> set (relay_range last_relay). 1 \<le> i \<and> i \<le> int (length rstate2)"
    using relay_range_bounds [OF assms(5)] assms(7) by simp
  from read_all_relays_calls [OF this, of D com_port serial w2] obtain rstate w3 where
    rd: "read_all_relays D com_port serial (relay_range last_relay) (rstate2, w2) =
           Some (rstate, w3)"
    and c3: "calls w3 = calls w2 @ map (\<lambda>i. Get com_port i serial) (relay_range last_relay)"
    by force
  have "process_http_request D config rlabels c w =
          Some (0, send_response D rlabels url com_port last_relay rstate w3, w3)"
    by (simp add: process_http_request_served [OF assms(1-3)]
        serve_request_detected [OF assms(4)] act rd)
  with c3 show ?thesis by (auto simp: w2_def)
qed

lemma set_request_calls:
  assumes "read_request c = Some (Inr (url, formdatalen, formdata))"
    and "0 \<le> formdatalen"
    and "decode_formdata formdatalen formdata = Some (relay, nstate, serial)"
    and "drv_detect D serial (hw w) = (Some (com_port, last_relay), h1)"
    and "unat last_relay \<le> MAX_NUM_RELAYS"
    and "nstate \<noteq> PULSE"
  shows "\<exists>rstate w'.
           process_http_request D config rlabels c w =
             Some (0, send_response D rlabels url com_port last_relay rstate w', w')
           \<and> calls w' = calls w @ [Detect serial]
                 @ (if 0 < formdatalen \<and> relay \<noteq> 0 \<and> nstate \<noteq> INVALID
                    then [Set com_port relay nstate serial] else [])
                 @ map (\<lambda>i. Get com_port i serial) (relay_range last_relay)"
proof (cases "0 < formdatalen \<and> relay \<noteq> 0 \<and> nstate \<noteq> INVALID")
  case True
  let ?w1 = "\<lparr>hw = h1, calls = calls w @ [Detect serial]\<rparr>"
  from True assms(6) obtain h2 where
    "relay_action D config com_port serial formdatalen relay nstate
       (stack_array MAX_NUM_RELAYS 0 (stack_rstate c), ?w1) =
     Some (stack_array MAX_NUM_RELAYS 0 (stack_rstate c),
           \<lparr>hw = h2, calls = calls ?w1 @ [Set com_port relay nstate serial]\<rparr>)"
    using relay_action_set [of formdatalen relay nstate D config com_port serial _ ?w1] by blast
  then have "relay_action D config com_port serial formdatalen relay nstate
       (stack_array MAX_NUM_RELAYS 0 (stack_rstate c), ?w1) =
     Some (stack_array MAX_NUM_RELAYS 0 (stack_rstate c),
           \<lparr>hw = h2, calls = (calls w @ [Detect serial]) @ [Set com_port relay nstate serial]\<rparr>)"
    by simp
  from served_calls [OF assms(1-5) this] True show ?thesis by auto
next
  case False
  let ?w1 = "\<lparr>hw = h1, calls = calls w @ [Detect serial]\<rparr>"
  have "relay_action D config com_port serial formdatalen relay nstate
       (stack_array MAX_NUM_RELAYS 0 (stack_rstate c), ?w1) =
     Some (stack_array MAX_NUM_RELAYS 0 (stack_rstate c),
           \<lparr>hw = h1, calls = (calls w @ [Detect serial]) @ []\<rparr>)"
    using relay_action_none [OF False] by simp
  from served_calls [OF assms(1-5) this] False show ?thesis by auto
qed

lemma pulse_request_calls:
  assumes "read_request c = Some (Inr (url, formdatalen, formdata))"
    and "0 < formdatalen"
    and "decode_formdata formdatalen formdata = Some (relay, PULSE, serial)"
    and "drv_detect D serial (hw w) = (Some (com_port, last_relay), h1)"
    and "unat last_relay \<le> MAX_NUM_RELAYS"
    and "1 \<le> relay" and "relay \<le> int MAX_NUM_RELAYS"
    and "drv_get D com_port relay serial h1 = ((rc, written), h2)"
    and "observed = (case written of
                       None \<Rightarrow> stack_array MAX_NUM_RELAYS 0 (stack_rstate c) ! nat (relay - 1)
                     | Some v \<Rightarrow> v)"
  shows "\<exists>rstate w'.
           process_http_request D config rlabels c w =
             Some (0, send_response D rlabels url com_port last_relay rstate w', w')
           \<and> calls w' = calls w @
                 [Detect serial,
                  Get com_port relay serial,
                  Set com_port relay (if observed = ON then OFF else ON) serial,
                  Sleep (unat (pulse_duration config)),
                  Set com_port relay (if observed = ON then ON else OFF) serial]
                 @ map (\<lambda>i. Get com_port i serial) (relay_range last_relay)"
proof -
  let ?w1 = "\<lparr>hw = h1, calls = calls w @ [Detect serial]\<rparr>"
  let ?rs = "stack_array MAX_NUM_RELAYS 0 (stack_rstate c)"
  have g: "drv_get D com_port relay serial (hw ?w1) = ((rc, written), h2)"
    using assms(8) by simp
  have le: "relay \<le> int (length ?rs)" using assms(7) by simp
  from relay_action_pulse [OF assms(2) assms(6) le g assms(9), of config]
  obtain h' rstate' where
    act: "relay_action D config com_port serial formdatalen relay PULSE (?rs, ?w1) =
            Some (rstate',
                  \<lparr>hw = h', calls = (calls w @ [Detect serial]) @
                     [Get com_port relay serial,
                      Set com_port relay (if observed = ON then OFF else ON) serial,
                      Sleep (unat (pulse_duration config)),
                      Set com_port relay (if observed = ON then ON else OFF) serial]\<rparr>)"
    and len: "length rstate' = MAX_NUM_RELAYS"
    by auto
  from assms(2) have "0 \<le> formdatalen" by simp
  from served_calls [OF assms(1) this assms(3-5) act len] show ?thesis by simp
qed

subsection \<open>Form data behind its terminator\<close>

text \<open>
  \<open>atoi\<close> and the scan for the serial stop at the terminator: what they return for a
  terminated string does not depend on the bytes that follow it.
\<close>

lemma NUL_not_space [simp]: "\<not> isspace NUL" by (simp add: isspace_def NUL_def)
lemma NUL_not_digit [simp]: "\<not> isdigit NUL" by (simp add: isdigit_def NUL_def)
lemma NUL_not_sign [simp]: "NUL \<noteq> CHR ''-''" "NUL \<noteq> CHR ''+''" "NUL \<noteq> CHR ''&''"
  by (simp_all add: NUL_def)

lemma dropWhile_stop: "\<not> P z \<Longrightarrow> dropWhile P (x @ z # t) = dropWhile P x @ z # t"
  by (induction x) auto

lemma takeWhile_stop: "\<not> P z \<Longrightarrow> takeWhile P (x @ z # t) = takeWhile P x"
  by (induction x) auto

lemma cstr_terminated: "NUL \<notin> set x \<Longrightarrow> cstr (x @ NUL # t) = x"
  by (induction x) (auto simp: cstr_def)

lemma atoi_terminated: "atoi (x @ NUL # t) = atoi (x @ [NUL])"
proof -
  have sign: "\<And>t. (case dropWhile isspace x @ NUL # t of [] \<Rightarrow> [] 
                     | c # r \<Rightarrow> if c = CHR ''-'' \<or> c = CHR ''+'' then r else dropWhile isspace x @ NUL # t)
              = (case dropWhile isspace x of [] \<Rightarrow> [] 
                     | c # r \<Rightarrow> if c = CHR ''-'' \<or> c = CHR ''+'' then r else dropWhile isspace x) @ NUL # t"
    by (cases "dropWhile isspace x") (simp_all del: dropWhile_eq_Nil_conv)
  have neg: "\<And>t. (case dropWhile isspace x @ NUL # t of [] \<Rightarrow> False | c # _ \<Rightarrow> c = CHR ''-'')
              = (case dropWhile isspace x of [] \<Rightarrow> False | c # _ \<Rightarrow> c = CHR ''-'')"
    by (cases "dropWhile isspace x") (simp_all del: dropWhile_eq_Nil_conv)
  have "atoi (x @ NUL # t) = atoi (x @ NUL # t')" for t t'
    by (simp add: atoi_def Let_def dropWhile_stop takeWhile_stop sign neg
        del: dropWhile_eq_Nil_conv)
  then show ?thesis .
qed

lemma serial_at_terminated:
  "NUL \<notin> set x \<Longrightarrow> serial_at (x @ NUL # t) = Some (takeWhile (\<lambda>c. c \<noteq> CHR ''&'') x)"
  by (simp add: serial_at_def cstr_terminated)

text \<open>The fields decoded from a string with values behind its tags do not depend on what
  the array holds behind the terminator.\<close>

lemma decode_formdata_terminated:
  assumes "NUL \<notin> set s" and "tags_have_value s"
  shows "decode_formdata n (s @ NUL # t) = decode_formdata n (s @ [NUL])"
proof -
  have nd: "NUL \<notin> set (drop k s)" for k
    using assms(1) by (meson in_set_dropD)
  have a: "atoi (drop (i + length tag + 1) (s @ NUL # t)) =
             atoi (drop (i + length tag + 1) (s @ [NUL]))"
    if "i + length tag < length s" for i tag
  proof -
    from that have "drop (i + length tag + 1) (s @ NUL # t) = drop (i + length tag + 1) s @ NUL # t"
      and "drop (i + length tag + 1) (s @ [NUL]) = drop (i + length tag + 1) s @ [NUL]"
      by simp_all
    then show ?thesis by (simp only: atoi_terminated [of _ t])
  qed
  have b: "serial_at (drop (i + length tag + 1) (s @ NUL # t)) =
             serial_at (drop (i + length tag + 1) (s @ [NUL]))"
    if "i + length tag < length s" for i tag
  proof -
    from that have "drop (i + length tag + 1) (s @ NUL # t) = drop (i + length tag + 1) s @ NUL # t"
      and "drop (i + length tag + 1) (s @ [NUL]) = drop (i + length tag + 1) s @ [NUL]"
      by simp_all
    then show ?thesis by (simp only: serial_at_terminated [OF nd])
  qed
  from assms(2) have
    r: "\<And>i. strstr s RELAY_TAG = Some i \<Longrightarrow> i + length RELAY_TAG < length s" and
    st: "\<And>i. strstr s STATE_TAG = Some i \<Longrightarrow> i + length STATE_TAG < length s" and
    se: "\<And>i. strstr s SERIAL_TAG = Some i \<Longrightarrow> i + length SERIAL_TAG < length s"
    by (auto simp: tags_have_value_def)
  have c: "cstr (s @ NUL # t) = s" "cstr (s @ [NUL]) = s"
    using assms(1) by (simp_all add: cstr_terminated)
  show ?thesis
    unfolding decode_formdata_def c
    by (cases "strstr s RELAY_TAG"; cases "strstr s STATE_TAG"; cases "strstr s SERIAL_TAG")
      (simp_all only: option.case a [OF r] a [OF st] b [OF se])
qed

text \<open>
  What the two readers leave in \<open>formdata\<close> for a string of fewer than 64 bytes: the
  string and its terminator, followed by padding after a GET and by what the array held
  before after a POST.
\<close>

lemma strchr_first: "x \<notin> set p \<Longrightarrow> strchr (p @ x # s) x = Some (length p)"
  by (induction p) auto

lemma fgets_line_0 [simp]: "fgets_line 0 s = []"
  by (cases s) simp_all

lemma fgets_line_exact: "LF \<notin> set s \<Longrightarrow> fgets_line (length s) (s @ rest) = s"
  by (induction s) auto

lemma read_httpget_data_short:
  assumes "CHR ''?'' \<notin> set path" and "length s < 64" and "NUL \<notin> set s"
    and "length data = 64"
  shows "read_httpget_data (path @ CHR ''?'' # s) data 64 =
           Some (int (length s), s @ NUL # replicate (63 - length s) NUL)"
proof -
  from assms(2) have rep: "replicate (64 - length s) NUL = NUL # replicate (63 - length s) NUL"
  proof -
    from assms(2) have "64 - length s = Suc (63 - length s)" by simp
    then show ?thesis by (simp only: replicate_Suc)
  qed
  have cp: "strncpy (data[0 := NUL]) s 64 = s @ NUL # replicate (63 - length s) NUL"
    using assms(2,4) by (simp add: strncpy_def rep)
  have "strlen (s @ NUL # replicate (63 - length s) NUL) = Some (length s)"
    using assms(3) by (simp add: strlen_def cstr_terminated)
  then show ?thesis
    using assms(1) by (simp add: read_httpget_data_def strchr_first cp)
qed

lemma read_httppost_data_short:
  assumes "read_header 0 f = Some (int (length s), s @ rest)" and "length s < 64"
    and "LF \<notin> set s" and "length data = 64"
  shows "read_httppost_data f data 64 =
           Some (int (length s), s @ NUL # drop (length s + 1) data)"
proof (cases "s = []")
  case True
  with assms show ?thesis
    by (cases data) (simp_all add: read_httppost_data_def fgets_def)
next
  case False
  then have fg: "fgets (length s + 1) (s @ rest) = Some (s, rest)"
    using assms(3) by (simp add: fgets_def fgets_line_exact)
  have "(s @ [NUL] @ drop (length s + 1) (data[0 := NUL]))[length s := NUL] =
          s @ NUL # drop (length s + 1) data"
    by (simp add: list_update_append drop_update_cancel)
  with assms(1,2) fg show ?thesis
    by (simp add: read_httppost_data_def)
qed

text \<open>A key that does not occur leaves its field as it was initialised.\<close>

lemma decode_formdata_unset:
  assumes "decode_formdata n formdata = Some (relay, nstate, serial)"
  shows "(strstr (cstr formdata) RELAY_TAG = None \<longrightarrow> relay = 0) \<and>
         (strstr (cstr formdata) STATE_TAG = None \<longrightarrow> nstate = INVALID) \<and>
         (strstr (cstr formdata) SERIAL_TAG = None \<longrightarrow> serial = None)"
proof (cases "0 < n")
  case False
  with assms show ?thesis by (simp add: decode_formdata_def)
next
  case True
  from assms True obtain a b c where
    a: "(case strstr (cstr formdata) RELAY_TAG of None \<Rightarrow> Some 0
         | Some i \<Rightarrow> atoi (drop (i + length RELAY_TAG + 1) formdata)) = Some a"
    and b: "(case strstr (cstr formdata) STATE_TAG of None \<Rightarrow> Some INVALID
         | Some i \<Rightarrow> atoi (drop (i + length STATE_TAG + 1) formdata)) = Some b"
    and c: "(case strstr (cstr formdata) SERIAL_TAG of None \<Rightarrow> Some None
         | Some i \<Rightarrow> map_option Some (serial_at (drop (i + length SERIAL_TAG + 1) formdata))) = Some c"
    and e: "(a, b, c) = (relay, nstate, serial)"
    unfolding decode_formdata_def by (simp add: bind_eq_Some_conv)
  from a b c e show ?thesis by auto
qed

subsection \<open>The request line and the header lines\<close>

text \<open>
  What \<open>fgets\<close> and \<open>strtok\<close> make of a request line, and what the header loop of
  \<open>read_httppost_data\<close> makes of the header lines.
\<close>

lemma fgets_line_LF:
  "LF \<notin> set l \<Longrightarrow> length l < k \<Longrightarrow> fgets_line k (l @ LF # rest) = l @ [LF]"
  by (induction l arbitrary: k) auto

lemma fgets_crlf:
  assumes "LF \<notin> set l" and "length l \<le> 253"
  shows "fgets 256 (l @ CRLF @ rest) = Some (l @ CRLF, rest)"
proof -
  have "LF \<notin> set (l @ [CHR 0x0D])" using assms(1) by (simp add: LF_def)
  moreover have "length (l @ [CHR 0x0D]) < 255" using assms(2) by simp
  ultimately have "fgets_line 255 ((l @ [CHR 0x0D]) @ LF # rest) = (l @ [CHR 0x0D]) @ [LF]"
    by (rule fgets_line_LF)
  then have "fgets_line 255 (l @ CRLF @ rest) = l @ CRLF"
    by (simp add: CRLF_def LF_def)
  then show ?thesis
    by (simp add: fgets_def CRLF_def)
qed

lemma cstr_no_NUL: "NUL \<notin> set x \<Longrightarrow> cstr x = x"
  by (auto simp: cstr_def)

lemma strtok_first:
  assumes "t \<noteq> []" and "CHR '' '' \<notin> set t"
  shows "strtok (t @ CHR '' '' # r) = Some (t, Some r)"
proof -
  from assms obtain a t' where t: "t = a # t'" and a: "a \<noteq> CHR '' ''"
    by (cases t) auto
  have d: "dropWhile (\<lambda>c. c = CHR '' '') (t @ CHR '' '' # r) = t @ CHR '' '' # r"
    using t a by simp
  have tk: "takeWhile (\<lambda>c. c \<noteq> CHR '' '') (t @ CHR '' '' # r) = t"
    using assms(2) by (induction t) auto
  have dr: "dropWhile (\<lambda>c. c \<noteq> CHR '' '') (t @ CHR '' '' # r) = CHR '' '' # r"
    using assms(2) by (induction t) auto
  show ?thesis
    unfolding strtok_def d Let_def tk dr using t by simp
qed

lemma tolower_fixed:
  "tolower (CHR '' '') = CHR '' ''" "tolower NUL = NUL" "tolower LF = LF"
  by (simp_all add: tolower_def NUL_def LF_def)

lemma strcasecmp_eq_POST:
  assumes "strcasecmp_eq m ''POST''"
  shows "m \<noteq> [] \<and> CHR '' '' \<notin> set m \<and> NUL \<notin> set m \<and> LF \<notin> set m \<and> length m = 4"
proof -
  from assms have e: "map tolower m = ''post''"
    by (simp add: strcasecmp_eq_def tolower_def)
  from e have "length (map tolower m) = length ''post''" by (rule arg_cong)
  then have l: "length m = 4" by simp
  have p: "tolower c \<in> set ''post''" if "c \<in> set m" for c
  proof -
    from that have "tolower c \<in> set (map tolower m)" by simp
    then show ?thesis unfolding e .
  qed
  have "CHR '' '' \<notin> set m"
  proof
    assume "CHR '' '' \<in> set m"
    from p [OF this] show False by (simp add: tolower_fixed)
  qed
  moreover have "NUL \<notin> set m"
  proof
    assume "NUL \<in> set m"
    from p [OF this] show False by (simp add: tolower_fixed) (simp add: NUL_def)
  qed
  moreover have "LF \<notin> set m"
  proof
    assume "LF \<in> set m"
    from p [OF this] show False by (simp add: tolower_fixed) (simp add: LF_def)
  qed
  moreover from l have "m \<noteq> []" by auto
  ultimately show ?thesis using l by simp
qed

lemma strcasecmp_eq_GET:
  assumes "strcasecmp_eq m ''GET''"
  shows "m \<noteq> [] \<and> CHR '' '' \<notin> set m \<and> NUL \<notin> set m \<and> LF \<notin> set m \<and> length m = 3
         \<and> \<not> strcasecmp_eq m ''POST''"
proof -
  from assms have e: "map tolower m = ''get''"
    by (simp add: strcasecmp_eq_def tolower_def)
  from e have "length (map tolower m) = length ''get''" by (rule arg_cong)
  then have l: "length m = 3" by simp
  have p: "tolower c \<in> set ''get''" if "c \<in> set m" for c
  proof -
    from that have "tolower c \<in> set (map tolower m)" by simp
    then show ?thesis unfolding e .
  qed
  have "CHR '' '' \<notin> set m"
  proof
    assume "CHR '' '' \<in> set m"
    from p [OF this] show False by (simp add: tolower_fixed)
  qed
  moreover have "NUL \<notin> set m"
  proof
    assume "NUL \<in> set m"
    from p [OF this] show False by (simp add: tolower_fixed) (simp add: NUL_def)
  qed
  moreover have "LF \<notin> set m"
  proof
    assume "LF \<in> set m"
    from p [OF this] show False by (simp add: tolower_fixed) (simp add: LF_def)
  qed
  moreover from l have "m \<noteq> []" by auto
  moreover have "\<not> strcasecmp_eq m ''POST''"
  proof
    assume "strcasecmp_eq m ''POST''"
    then have "length (map tolower m) = length (map tolower ''POST'')"
      unfolding strcasecmp_eq_def by (rule arg_cong)
    with l show False by simp
  qed
  ultimately show ?thesis using l by simp
qed

text \<open>The request line as \<open>process_http_request\<close> splits it.\<close>

lemma request_line_split:
  assumes "sock c = request_line method url version @ rest"
    and "method \<noteq> []" and "CHR '' '' \<notin> set method" and "NUL \<notin> set method" and "LF \<notin> set method"
    and "url_token url" and "NUL \<notin> set version" and "LF \<notin> set version"
    and "length method + length url + length version \<le> 251"
  shows "fgets 256 (sock c) = Some (request_line method url version, rest)"
    and "strtok (cstr (request_line method url version)) =
           Some (method, Some (url @ '' '' @ version @ CRLF))"
    and "strtok (url @ '' '' @ version @ CRLF) = Some (url, Some (version @ CRLF))"
proof -
  let ?l = "method @ '' '' @ url @ '' '' @ version"
  have sp: "LF \<noteq> CHR '' ''" "NUL \<noteq> CHR '' ''" by (simp_all add: LF_def NUL_def)
  from assms have lf: "LF \<notin> set ?l" by (simp add: url_token_def sp)
  from assms have len: "length ?l \<le> 253" by simp
  have rl: "request_line method url version = ?l @ CRLF"
    by (simp add: request_line_def)
  from fgets_crlf [OF lf len, of rest] show "fgets 256 (sock c) = Some (request_line method url version, rest)"
    unfolding assms(1) rl by simp
  from assms have "NUL \<notin> set (request_line method url version)"
    by (simp add: request_line_def url_token_def sp CRLF_def NUL_def)
  then have c: "cstr (request_line method url version) = request_line method url version"
    by (rule cstr_no_NUL)
  from strtok_first [OF assms(2,3)]
  show "strtok (cstr (request_line method url version)) =
           Some (method, Some (url @ '' '' @ version @ CRLF))"
    unfolding c by (simp add: request_line_def)
  from assms(6) have "url \<noteq> []" "CHR '' '' \<notin> set url" by (simp_all add: url_token_def)
  from strtok_first [OF this]
  show "strtok (url @ '' '' @ version @ CRLF) = Some (url, Some (version @ CRLF))"
    by simp
qed

lemma read_request_POST:
  assumes "sock c = request_line method url version @ rest"
    and "strcasecmp_eq method ''POST''"
    and "url_token url" and "NUL \<notin> set version" and "LF \<notin> set version"
    and "length url + length version \<le> 247"
  shows "read_request c =
           map_option (\<lambda>fd. Inr (url, fd))
             (read_httppost_data rest ((stack_array 64 NUL (stack_formdata c))[0 := NUL]) 64)"
proof -
  from strcasecmp_eq_POST [OF assms(2)] have m: "method \<noteq> []" "CHR '' '' \<notin> set method"
    "NUL \<notin> set method" "LF \<notin> set method" and l: "length method = 4" by simp_all
  from l assms(6) have len: "length method + length url + length version \<le> 251" by simp
  note s = request_line_split [OF assms(1) m assms(3,4,5) len]
  show ?thesis
    unfolding read_request_def Let_def s option.case prod.case
    using assms(2) by simp
qed

lemma read_request_GET:
  assumes "sock c = request_line method url version @ rest"
    and "strcasecmp_eq method ''GET''"
    and "url_token url" and "NUL \<notin> set version" and "LF \<notin> set version"
    and "length url + length version \<le> 248"
  shows "read_request c =
           map_option (\<lambda>fd. Inr (url, fd))
             (read_httpget_data url ((stack_array 64 NUL (stack_formdata c))[0 := NUL]) 64)"
proof -
  from strcasecmp_eq_GET [OF assms(2)] have m: "method \<noteq> []" "CHR '' '' \<notin> set method"
    "NUL \<notin> set method" "LF \<notin> set method" and l: "length method = 3"
    and np: "\<not> strcasecmp_eq method ''POST''" by simp_all
  from l assms(6) have len: "length method + length url + length version \<le> 251" by simp
  note s = request_line_split [OF assms(1) m assms(3,4,5) len]
  show ?thesis
    unfolding read_request_def Let_def s option.case prod.case
    using assms(2) np by simp
qed


text \<open>The header lines.\<close>

lemma strstr_disjoint:
  "needle \<noteq> [] \<Longrightarrow> set t \<inter> set needle = {} \<Longrightarrow> strstr t needle = None"
proof (induction t)
  case Nil
  then show ?case by simp
next
  case (Cons c cs)
  have "take (length needle) (c # cs) \<noteq> needle"
  proof
    assume e: "take (length needle) (c # cs) = needle"
    from Cons.prems(1) obtain a n' where n: "needle = a # n'" by (cases needle) auto
    with e have "a = c" by simp
    with n Cons.prems(2) show False by simp
  qed
  moreover from Cons have "strstr cs needle = None" by simp
  ultimately show ?case by simp
qed

lemma take_append_disjoint:
  assumes "set t \<inter> set needle = {}"
  shows "take (length needle) (l @ t) = needle \<longleftrightarrow> take (length needle) l = needle"
proof
  assume e: "take (length needle) (l @ t) = needle"
  show "take (length needle) l = needle"
  proof (cases "length needle \<le> length l")
    case True
    with e show ?thesis by simp
  next
    case False
    then have "length l < length needle" by simp
    from e have "length (take (length needle) (l @ t)) = length needle" by simp
    then have "length needle \<le> length (l @ t)" by simp
    with False have "t \<noteq> []" by auto
    from e have "needle ! length l = (l @ t) ! length l"
      using \<open>length l < length needle\<close> by (metis nth_take)
    also have "\<dots> = hd t" using \<open>t \<noteq> []\<close> by (simp add: nth_append hd_conv_nth)
    finally have "hd t \<in> set needle"
      using \<open>length l < length needle\<close> by (metis nth_mem)
    moreover have "hd t \<in> set t" using \<open>t \<noteq> []\<close> by simp
    ultimately show ?thesis using assms by auto
  qed
next
  assume e: "take (length needle) l = needle"
  then have "length (take (length needle) l) = length needle" by simp
  then have "length needle \<le> length l" by simp
  with e show "take (length needle) (l @ t) = needle" by simp
qed

lemma strstr_append_disjoint:
  assumes "needle \<noteq> []" and "set t \<inter> set needle = {}"
  shows "strstr (l @ t) needle = strstr l needle"
proof (induction l)
  case Nil
  from strstr_disjoint [OF assms] assms(1) show ?case by simp
next
  case (Cons c cs)
  from take_append_disjoint [OF assms(2), of "c # cs"] Cons show ?case by simp
qed

lemma read_header_end: "read_header d (CRLF @ body) = Some (d, body)"
proof -
  have f: "fgets 256 (CRLF @ body) = Some (CRLF, body)"
    using fgets_crlf [of "[]" body] by simp
  have c: "cstr CRLF = CRLF" by (simp add: cstr_def CRLF_def NUL_def)
  have s: "strstr CRLF ''Content-Length:'' = None" by (simp add: CRLF_def)
  have "read_header d (CRLF @ body) =
          (case fgets 256 (CRLF @ body) of
             None \<Rightarrow> Some (d, CRLF @ body)
           | Some (buf, f') \<Rightarrow>
               (case (if strstr (cstr buf) ''Content-Length:'' \<noteq> None
                      then atoi (drop (length ''Content-Length:'') (cstr buf) @ [NUL])
                      else Some d) of
                  None \<Rightarrow> None
                | Some dl \<Rightarrow> if cstr buf = CRLF then Some (dl, f') else read_header dl f'))"
    by (rule read_header.simps)
  then show ?thesis
    unfolding f option.case prod.case c s by simp
qed

lemma read_header_other:
  assumes "header_line l" and "strstr l ''Content-Length:'' = None"
  shows "read_header d (l @ CRLF @ t) = read_header d t"
proof -
  from assms(1) have f: "fgets 256 (l @ CRLF @ t) = Some (l @ CRLF, t)"
    by (intro fgets_crlf) (simp_all add: header_line_def)
  from assms(1) have c: "cstr (l @ CRLF) = l @ CRLF"
    by (intro cstr_no_NUL) (simp add: header_line_def CRLF_def NUL_def)
  have "strstr (l @ CRLF) ''Content-Length:'' = strstr l ''Content-Length:''"
    by (rule strstr_append_disjoint) (simp_all add: CRLF_def)
  with assms(2) have s: "strstr (l @ CRLF) ''Content-Length:'' = None" by simp
  from assms(1) have ne: "l @ CRLF \<noteq> CRLF" by (simp add: header_line_def)
  have "read_header d (l @ CRLF @ t) =
          (case fgets 256 (l @ CRLF @ t) of
             None \<Rightarrow> Some (d, l @ CRLF @ t)
           | Some (buf, f') \<Rightarrow>
               (case (if strstr (cstr buf) ''Content-Length:'' \<noteq> None
                      then atoi (drop (length ''Content-Length:'') (cstr buf) @ [NUL])
                      else Some d) of
                  None \<Rightarrow> None
                | Some dl \<Rightarrow> if cstr buf = CRLF then Some (dl, f') else read_header dl f'))"
    by (rule read_header.simps)
  then show ?thesis
    unfolding f option.case prod.case c s using ne by simp
qed

lemma read_header_Content_Length:
  assumes "header_line (''Content-Length:'' @ v)" and "atoi (v @ CRLF @ [NUL]) = Some n"
  shows "read_header d ((''Content-Length:'' @ v) @ CRLF @ t) = read_header n t"
proof -
  let ?l = "''Content-Length:'' @ v"
  from assms(1) have f: "fgets 256 (?l @ CRLF @ t) = Some (?l @ CRLF, t)"
    by (intro fgets_crlf) (simp_all add: header_line_def)
  from assms(1) have c: "cstr (?l @ CRLF) = ?l @ CRLF"
    by (intro cstr_no_NUL) (simp add: header_line_def CRLF_def NUL_def)
  have s: "strstr (?l @ CRLF) ''Content-Length:'' = Some 0" by simp
  have ne: "?l @ CRLF \<noteq> CRLF" by (simp add: CRLF_def)
  have dr: "drop (length ''Content-Length:'') (?l @ CRLF) @ [NUL] = v @ CRLF @ [NUL]" by simp
  have "read_header d (?l @ CRLF @ t) =
          (case fgets 256 (?l @ CRLF @ t) of
             None \<Rightarrow> Some (d, ?l @ CRLF @ t)
           | Some (buf, f') \<Rightarrow>
               (case (if strstr (cstr buf) ''Content-Length:'' \<noteq> None
                      then atoi (drop (length ''Content-Length:'') (cstr buf) @ [NUL])
                      else Some d) of
                  None \<Rightarrow> None
                | Some dl \<Rightarrow> if cstr buf = CRLF then Some (dl, f') else read_header dl f'))"
    by (rule read_header.simps)
  then show ?thesis
    unfolding f option.case prod.case c s dr assms(2) using ne by simp
qed

lemma read_header_others:
  assumes "\<forall>l \<in> set ls. header_line l \<and> strstr l ''Content-Length:'' = None"
  shows "read_header d (concat (map (\<lambda>l. l @ CRLF) ls) @ t) = read_header d t"
  using assms
proof (induction ls)
  case Nil
  then show ?case by simp
next
  case (Cons l ls)
  from Cons.prems have a: "header_line l" "strstr l ''Content-Length:'' = None" by simp_all
  have "read_header d (concat (map (\<lambda>l. l @ CRLF) (l # ls)) @ t) =
          read_header d (l @ CRLF @ concat (map (\<lambda>l. l @ CRLF) ls) @ t)" by simp
  also have "\<dots> = read_header d (concat (map (\<lambda>l. l @ CRLF) ls) @ t)"
    by (rule read_header_other [OF a])
  also have "\<dots> = read_header d t" using Cons by simp
  finally show ?case .
qed

lemma read_header_block:
  assumes "\<forall>l \<in> set (before @ after). header_line l \<and> strstr l ''Content-Length:'' = None"
    and "header_line (''Content-Length:'' @ v)" and "atoi (v @ CRLF @ [NUL]) = Some n"
  shows "read_header d (header_block (before @ [''Content-Length:'' @ v] @ after) @ body) =
           Some (n, body)"
proof -
  from assms(1) have b: "\<forall>l \<in> set before. header_line l \<and> strstr l ''Content-Length:'' = None"
    and a: "\<forall>l \<in> set after. header_line l \<and> strstr l ''Content-Length:'' = None" by auto
  have "header_block (before @ [''Content-Length:'' @ v] @ after) @ body =
          concat (map (\<lambda>l. l @ CRLF) before) @
            ((''Content-Length:'' @ v) @ CRLF @ (concat (map (\<lambda>l. l @ CRLF) after) @ (CRLF @ body)))"
    by (simp add: header_block_def)
  then have "read_header d (header_block (before @ [''Content-Length:'' @ v] @ after) @ body) =
          read_header d (concat (map (\<lambda>l. l @ CRLF) before) @
            ((''Content-Length:'' @ v) @ CRLF @ (concat (map (\<lambda>l. l @ CRLF) after) @ (CRLF @ body))))"
    by (rule arg_cong)
  also have "\<dots> = read_header d ((''Content-Length:'' @ v) @ CRLF @ (concat (map (\<lambda>l. l @ CRLF) after) @ (CRLF @ body)))"
    by (rule read_header_others [OF b])
  also have "\<dots> = read_header n (concat (map (\<lambda>l. l @ CRLF) after) @ (CRLF @ body))"
    by (rule read_header_Content_Length [OF assms(2,3)])
  also have "\<dots> = read_header n (CRLF @ body)"
    by (rule read_header_others [OF a])
  also have "\<dots> = Some (n, body)" by (rule read_header_end)
  finally show ?thesis .
qed


text \<open>The decimal notation that \<open>printf\<close> writes is read back by \<open>atoi\<close>.\<close>

lemma decimal_digit:
  assumes "k < 10"
  shows "isdigit (''0123456789'' ! k)" and "digit_val (''0123456789'' ! k) = int k"
proof -
  from assms have "k = 0 \<or> k = 1 \<or> k = 2 \<or> k = 3 \<or> k = 4 \<or> k = 5 \<or> k = 6 \<or> k = 7 \<or> k = 8 \<or> k = 9"
    by arith
  then show "isdigit (''0123456789'' ! k)" and "digit_val (''0123456789'' ! k) = int k"
    by (auto simp: isdigit_def digit_val_def)
qed

lemma show_nat_digits: "\<forall>c \<in> set (show_nat n). isdigit c"
proof (induction n rule: show_nat.induct)
  case (1 n)
  show ?case
  proof (cases "n < 10")
    case True
    then have "show_nat n = [''0123456789'' ! n]" by (subst show_nat.simps) simp
    with decimal_digit(1) [OF True] show ?thesis by (simp del: show_nat.simps)
  next
    case False
    then have e: "show_nat n = show_nat (n div 10) @ [''0123456789'' ! (n mod 10)]"
      by (subst show_nat.simps) simp
    have "n mod 10 < 10" by simp
    from decimal_digit(1) [OF this] 1 [OF False] show ?thesis
      unfolding e by (simp del: show_nat.simps)
  qed
qed

lemma show_nat_value: "foldl (\<lambda>a c. 10 * a + digit_val c) 0 (show_nat n) = int n"
proof (induction n rule: show_nat.induct)
  case (1 n)
  show ?case
  proof (cases "n < 10")
    case True
    then have "show_nat n = [''0123456789'' ! n]" by (subst show_nat.simps) simp
    with decimal_digit(2) [OF True] show ?thesis by (simp del: show_nat.simps)
  next
    case False
    then have e: "show_nat n = show_nat (n div 10) @ [''0123456789'' ! (n mod 10)]"
      by (subst show_nat.simps) simp
    have "n mod 10 < 10" by simp
    have a: "10 * int (n div 10) + int (n mod 10) = int n" by presburger
    from decimal_digit(2) [OF \<open>n mod 10 < 10\<close>] 1 [OF False] a show ?thesis
      unfolding e by (simp del: show_nat.simps)
  qed
qed

lemma show_nat_Cons: "\<exists>c cs. show_nat n = c # cs \<and> isdigit c"
proof -
  have "show_nat n \<noteq> []" by (subst show_nat.simps) simp
  then obtain c cs where e: "show_nat n = c # cs" by (cases "show_nat n") auto
  with show_nat_digits [of n] have "isdigit c" by (simp del: show_nat.simps)
  with e show ?thesis by blast
qed

lemma isdigit_not_space: "isdigit c \<Longrightarrow> \<not> isspace c \<and> c \<noteq> CHR ''-'' \<and> c \<noteq> CHR ''+''"
  by (auto simp: isdigit_def isspace_def)

text \<open>\<open>atoi\<close> reads the decimal notation of a number that fits an \<open>int\<close>.\<close>

lemma atoi_decimal:
  assumes "int n \<le> INT_MAX"
  shows "atoi ('' '' @ show_nat n @ CRLF @ [NUL]) = Some (int n)"
proof -
  obtain c cs where e: "show_nat n = c # cs" and d: "isdigit c"
    using show_nat_Cons by blast
  from isdigit_not_space [OF d] have ns: "\<not> isspace c" and sg: "c \<noteq> CHR ''-''" "c \<noteq> CHR ''+''"
    by simp_all
  have sp: "isspace (CHR '' '')" by (simp add: isspace_def)
  have m1: "dropWhile isspace ('' '' @ show_nat n @ CRLF @ [NUL]) = c # cs @ CRLF @ [NUL]"
    using sp ns by (simp add: e del: show_nat.simps)
  have cr: "\<not> isdigit (CHR 0x0D)" by code_simp
  have all: "\<forall>x \<in> set (c # cs). isdigit x" using show_nat_digits [of n] unfolding e .
  have tk: "takeWhile isdigit (c # cs @ CRLF @ [NUL]) = c # cs"
  proof -
    have "takeWhile isdigit ((c # cs) @ CHR 0x0D # [LF, NUL]) = takeWhile isdigit (c # cs)"
      using cr by (rule takeWhile_stop)
    also have "\<dots> = c # cs" using all by (subst takeWhile_eq_all_conv) blast
    finally show ?thesis by (simp add: CRLF_def LF_def)
  qed
  have dr: "dropWhile isdigit (c # cs @ CRLF @ [NUL]) \<noteq> []"
  proof -
    have "dropWhile isdigit ((c # cs) @ CHR 0x0D # [LF, NUL]) = dropWhile isdigit (c # cs) @ CHR 0x0D # [LF, NUL]"
      using cr by (rule dropWhile_stop)
    then show ?thesis by (simp add: CRLF_def LF_def del: dropWhile_eq_Nil_conv)
  qed
  have v: "foldl (\<lambda>a c. 10 * a + digit_val c) 0 (c # cs) = int n"
    using show_nat_value [of n] unfolding e .
  have r: "INT_MIN \<le> int n" by (simp add: INT_MIN_def)
  show ?thesis
    unfolding atoi_def m1 Let_def list.case using sg dr assms r
    by (simp only: if_False tk v simp_thms if_True) 
qed


lemma show_nat_length: "0 < k \<Longrightarrow> n < 10 ^ k \<Longrightarrow> length (show_nat n) \<le> k"
proof (induction k arbitrary: n)
  case 0
  then show ?case by simp
next
  case (Suc k)
  show ?case
  proof (cases "n < 10")
    case True
    then have "show_nat n = [''0123456789'' ! n]" by (subst show_nat.simps) simp
    then show ?thesis by (simp del: show_nat.simps)
  next
    case False
    then have e: "show_nat n = show_nat (n div 10) @ [''0123456789'' ! (n mod 10)]"
      by (subst show_nat.simps) simp
    from False Suc.prems(2) have k: "0 < k" by (cases k) simp_all
    from Suc.prems(2) have "n div 10 < 10 ^ k" by (simp add: less_mult_imp_div_less mult.commute)
    from Suc.IH [OF k this] show ?thesis unfolding e by (simp del: show_nat.simps)
  qed
qed

text \<open>
  The usual header line, \<open>Content-Length:\<close>, a space and the decimal notation of a
  length that fits an \<open>int\<close>, is a header line whose value \<open>atoi\<close> reads as that
  length.
\<close>

lemma decimal_Content_Length:
  assumes "int n \<le> INT_MAX"
  shows "header_line (''Content-Length:'' @ '' '' @ show_nat n)"
    and "atoi ('' '' @ show_nat n @ CRLF @ [NUL]) = Some (int n)"
proof -
  from assms have "n < 10 ^ 10" by (simp add: INT_MAX_def)
  then have l: "length (show_nat n) \<le> 10" by (intro show_nat_length) simp_all
  have d: "\<not> isdigit LF" "\<not> isdigit NUL" by (simp_all add: isdigit_def LF_def NUL_def)
  with show_nat_digits [of n] have "LF \<notin> set (show_nat n)" "NUL \<notin> set (show_nat n)"
    by blast+
  with l show "header_line (''Content-Length:'' @ '' '' @ show_nat n)"
    by (simp add: header_line_def LF_def NUL_def del: show_nat.simps)
  show "atoi ('' '' @ show_nat n @ CRLF @ [NUL]) = Some (int n)"
    by (rule atoi_decimal [OF assms])
qed

subsection \<open>The claims about the server\<close>

text \<open>
  C7. When the detection of the card fails for a request: a URL that contains \<open>gpio\<close>
  is answered with status 503 and the plain-text error line, any other URL with the web
  page that holds the error block. In both cases \<open>process_http_request\<close> returns 0 to
  the accept loop; nothing but the detection has been asked of the driver.
\<close>

theorem no_device_response:
  assumes "read_request c = Some (Inr (url, formdatalen, formdata))"
    and "0 \<le> formdatalen"
    and "decode_formdata formdatalen formdata = Some (relay, nstate, serial)"
    and "drv_detect D serial (hw w) = (None, h')"
  shows "process_http_request D config rlabels c w =
           Some (0,
                 if strstr url ''gpio'' \<noteq> None
                 then [Headers 503 ''No compatible device detected'' ''text/plain'',
                       Text ''ERROR: No compatible device detected'']
                 else web_page_header @ [Html Error_block] @ web_page_footer,
                 \<lparr>hw = h', calls = calls w @ [Detect serial]\<rparr>)"
  using assms(4)
  by (simp add: process_http_request_served [OF assms(1-3)] serve_request_def
      crelay_detect_relay_card_def API_URL_def send_headers_def web_page_error_def)

theorem no_device_response_witness:
  "process_http_request example_card example_config default_rlabels
     (request (''GET /gpio?pin=1 HTTP/1.1'' @ CRLF)) \<lparr>hw = [], calls = []\<rparr> =
   Some (0, [Headers 503 ''No compatible device detected'' ''text/plain'',
             Text ''ERROR: No compatible device detected''],
         \<lparr>hw = [], calls = [Detect None]\<rparr>)
   \<and> process_http_request example_card example_config default_rlabels
     (request (''GET /index.html HTTP/1.1'' @ CRLF)) \<lparr>hw = [], calls = []\<rparr> =
   Some (0, [Headers 200 ''OK'' ''text/html'', Html Page_head, Html Error_block, Html Page_foot],
         \<lparr>hw = [], calls = [Detect None]\<rparr>)"
proof -
  have r1: "read_request (request (''GET /gpio?pin=1 HTTP/1.1'' @ CRLF)) =
              Some (Inr (''/gpio?pin=1'', 5, ''pin=1'' @ replicate 59 NUL))"
    by code_simp
  have d1: "decode_formdata 5 (''pin=1'' @ replicate 59 NUL) = Some (1, INVALID, None)"
    by code_simp
  have r2: "read_request (request (''GET /index.html HTTP/1.1'' @ CRLF)) =
              Some (Inr (''/index.html'', 0, replicate 64 NUL))"
    by code_simp
  have d2: "decode_formdata 0 (replicate 64 NUL) = Some (0, INVALID, None)"
    by code_simp
  have det: "drv_detect example_card None (hw \<lparr>hw = [], calls = []\<rparr>) = (None, [])"
    by (simp add: example_card_def)
  have g: "strstr ''/gpio?pin=1'' ''gpio'' \<noteq> None" by simp
  have ng: "strstr ''/index.html'' ''gpio'' = None" by simp
  show ?thesis
    using no_device_response [OF r1 _ d1 det, of example_config default_rlabels]
      no_device_response [OF r2 _ d2 det, of example_config default_rlabels] g ng
    by (simp add: web_page_header_def web_page_footer_def send_headers_def)
qed




text \<open>
  A pulse on a channel that the card has, when the driver's \<open>get\<close> stores a state:
  the channel is read first; when the state read is ON the driver is told OFF, then the
  process sleeps for the configured pulse duration, then the driver is told ON; for any
  other state read the driver is told ON, then the sleep, then OFF. The second write
  restores the state read, whenever that state is ON or OFF.
\<close>

lemma pulse_when_state_read:
  assumes "read_request c = Some (Inr (url, formdatalen, formdata))"
    and "0 < formdatalen"
    and "decode_formdata formdatalen formdata = Some (relay, PULSE, serial)"
    and "drv_detect D serial (hw w) = (Some (com_port, last_relay), h1)"
    and "unat last_relay \<le> MAX_NUM_RELAYS"
    and "1 \<le> relay" and "relay \<le> int (unat last_relay)"
    and "drv_get D com_port relay serial h1 = ((rc, Some observed), h2)"
  shows "\<exists>out w' first second.
           process_http_request D config rlabels c w = Some (0, out, w')
         \<and> calls w' = calls w @
               [Detect serial,
                Get com_port relay serial,
                Set com_port relay first serial,
                Sleep (unat (pulse_duration config)),
                Set com_port relay second serial]
               @ map (\<lambda>i. Get com_port i serial) (relay_range last_relay)
         \<and> (observed = ON \<longrightarrow> first = OFF \<and> second = ON)
         \<and> (observed \<noteq> ON \<longrightarrow> first = ON \<and> second = OFF)
         \<and> (observed = ON \<or> observed = OFF \<longrightarrow> second = observed)"
proof -
  from assms(5,7) have le: "relay \<le> int MAX_NUM_RELAYS" by linarith
  have ob: "observed = (case Some observed of
                          None \<Rightarrow> stack_array MAX_NUM_RELAYS 0 (stack_rstate c) ! nat (relay - 1)
                        | Some v \<Rightarrow> v)"
    by simp
  from pulse_request_calls [OF assms(1-5) assms(6) le assms(8) ob, of config rlabels]
  obtain rstate w' where
    "process_http_request D config rlabels c w =
       Some (0, send_response D rlabels url com_port last_relay rstate w', w')"
    and "calls w' = calls w @
           [Detect serial,
            Get com_port relay serial,
            Set com_port relay (if observed = ON then OFF else ON) serial,
            Sleep (unat (pulse_duration config)),
            Set com_port relay (if observed = ON then ON else OFF) serial]
           @ map (\<lambda>i. Get com_port i serial) (relay_range last_relay)"
    by blast
  then show ?thesis
    by (intro exI [of _ "send_response D rlabels url com_port last_relay rstate w'"]
        exI [of _ w'] exI [of _ "if observed = ON then OFF else ON"]
        exI [of _ "if observed = ON then ON else OFF"]) (simp add: ON_def OFF_def)
qed

text \<open>
  C2. The pulse does not treat an unknown state like OFF. Line 619 ignores the return
  value of \<open>crelay_get_relay\<close>, and line 502 leaves \<open>rstate\<close> uninitialised: when
  the read-out fails and stores nothing, line 620 tests what the stack held. On a card
  with four relays, all OFF, whose read-out fails, the request
  \<open>GET /gpio?pin=2&status=2\<close> with a stale 1 in \<open>rstate[1]\<close> tells the driver OFF,
  sleeps, and tells it ON: relay 2, which was OFF, is left ON. With a stale 0 in the same
  slot the same request tells the driver ON, sleeps, and tells it OFF.
\<close>

theorem pulse_after_failed_get:
  "process_http_request unreadable_card example_config default_rlabels
     \<lparr>sock = ''GET /gpio?pin=2&status=2 HTTP/1.1'' @ CRLF, stack_formdata = [],
        stack_rstate = [0, 1, 0, 0, 0, 0, 0, 0]\<rparr>
     \<lparr>hw = [0, 0, 0, 0], calls = []\<rparr> =
   Some (0, [Headers 200 ''OK'' ''text/plain'', Text ''Relay 1:0<br>'', Text ''Relay 2:1<br>'',
             Text ''Relay 3:0<br>'', Text ''Relay 4:0<br>''],
         \<lparr>hw = [0, 1, 0, 0],
            calls = [Detect None, Get ''/dev/ttyUSB0'' 2 None,
                     Set ''/dev/ttyUSB0'' 2 OFF None, Sleep 1, Set ''/dev/ttyUSB0'' 2 ON None,
                     Get ''/dev/ttyUSB0'' 1 None, Get ''/dev/ttyUSB0'' 2 None,
                     Get ''/dev/ttyUSB0'' 3 None, Get ''/dev/ttyUSB0'' 4 None]\<rparr>)
   \<and> process_http_request unreadable_card example_config default_rlabels
     \<lparr>sock = ''GET /gpio?pin=2&status=2 HTTP/1.1'' @ CRLF, stack_formdata = [],
        stack_rstate = [0, 0, 0, 0, 0, 0, 0, 0]\<rparr>
     \<lparr>hw = [0, 0, 0, 0], calls = []\<rparr> =
   Some (0, [Headers 200 ''OK'' ''text/plain'', Text ''Relay 1:0<br>'', Text ''Relay 2:0<br>'',
             Text ''Relay 3:0<br>'', Text ''Relay 4:0<br>''],
         \<lparr>hw = [0, 0, 0, 0],
            calls = [Detect None, Get ''/dev/ttyUSB0'' 2 None,
                     Set ''/dev/ttyUSB0'' 2 ON None, Sleep 1, Set ''/dev/ttyUSB0'' 2 OFF None,
                     Get ''/dev/ttyUSB0'' 1 None, Get ''/dev/ttyUSB0'' 2 None,
                     Get ''/dev/ttyUSB0'' 3 None, Get ''/dev/ttyUSB0'' 4 None]\<rparr>)"
  by code_simp

text \<open>
  C3. The claim that every status other than 0, 1 and the pulse code is handled as
  INVALID fails: status 5 on channel 2 reaches the driver as a \<open>set\<close> with state 5.
\<close>

theorem other_status_counterexample:
  "process_http_request example_card example_config default_rlabels
     (request (''GET /gpio?pin=2&status=5 HTTP/1.1'' @ CRLF))
     \<lparr>hw = [0, 0, 0, 0], calls = []\<rparr> =
   Some (0, [Headers 200 ''OK'' ''text/plain'', Text ''Relay 1:0<br>'', Text ''Relay 2:5<br>'',
             Text ''Relay 3:0<br>'', Text ''Relay 4:0<br>''],
         \<lparr>hw = [0, 5, 0, 0],
            calls = [Detect None, Set ''/dev/ttyUSB0'' 2 5 None, Get ''/dev/ttyUSB0'' 1 None,
                     Get ''/dev/ttyUSB0'' 2 None, Get ''/dev/ttyUSB0'' 3 None,
                     Get ''/dev/ttyUSB0'' 4 None]\<rparr>)"
  by code_simp

text \<open>
  C3, as amended. Only the value INVALID, which \<open>nstate\<close> also holds when the form data
  has no status, keeps the server from acting: the request is then a pure query, the
  detection followed by the read of every channel. Every other status except the pulse
  code, 0 and 1 or not, is handed to the driver's \<open>set\<close> as it is, for a channel other
  than 0.
\<close>

theorem status_dispatch:
  assumes "read_request c = Some (Inr (url, formdatalen, formdata))"
    and "0 < formdatalen"
    and "decode_formdata formdatalen formdata = Some (relay, nstate, serial)"
    and "drv_detect D serial (hw w) = (Some (com_port, last_relay), h1)"
    and "unat last_relay \<le> MAX_NUM_RELAYS"
    and "nstate \<noteq> PULSE"
    and "relay \<noteq> 0"
  shows "\<exists>rstate w'.
           process_http_request D config rlabels c w =
             Some (0, send_response D rlabels url com_port last_relay rstate w', w')
         \<and> (nstate = INVALID \<longrightarrow>
               calls w' = calls w @ [Detect serial]
                 @ map (\<lambda>i. Get com_port i serial) (relay_range last_relay))
         \<and> (nstate \<noteq> INVALID \<longrightarrow>
               calls w' = calls w @ [Detect serial, Set com_port relay nstate serial]
                 @ map (\<lambda>i. Get com_port i serial) (relay_range last_relay))"
proof -
  from assms(2) have n: "0 \<le> formdatalen" by simp
  from set_request_calls [OF assms(1) n assms(3-6), of config rlabels] assms(2,7)
  show ?thesis by auto
qed

theorem status_dispatch_witness:
  "(\<exists>rstate w'.
     process_http_request example_card example_config default_rlabels
       (request (''GET /gpio?pin=2&status=3 HTTP/1.1'' @ CRLF))
       \<lparr>hw = [0, 0, 0, 0], calls = []\<rparr> =
       Some (0, send_response example_card default_rlabels ''/gpio?pin=2&status=3''
                  ''/dev/ttyUSB0'' 4 rstate w', w')
     \<and> calls w' = Detect None # map (\<lambda>i. Get ''/dev/ttyUSB0'' i None) (relay_range 4))
   \<and> (\<exists>rstate w'.
     process_http_request example_card example_config default_rlabels
       (request (''GET /gpio?pin=2&status=5 HTTP/1.1'' @ CRLF))
       \<lparr>hw = [0, 0, 0, 0], calls = []\<rparr> =
       Some (0, send_response example_card default_rlabels ''/gpio?pin=2&status=5''
                  ''/dev/ttyUSB0'' 4 rstate w', w')
     \<and> calls w' = Detect None # Set ''/dev/ttyUSB0'' 2 5 None #
                      map (\<lambda>i. Get ''/dev/ttyUSB0'' i None) (relay_range 4))"
proof -
  have r: "read_request (request (''GET /gpio?pin=2&status=3 HTTP/1.1'' @ CRLF)) =
             Some (Inr (''/gpio?pin=2&status=3'', 14, ''pin=2&status=3'' @ replicate 50 NUL))"
    by code_simp
  have r': "read_request (request (''GET /gpio?pin=2&status=5 HTTP/1.1'' @ CRLF)) =
             Some (Inr (''/gpio?pin=2&status=5'', 14, ''pin=2&status=5'' @ replicate 50 NUL))"
    by code_simp
  have n: "(0 :: int) < 14" by simp
  have d: "decode_formdata 14 (''pin=2&status=3'' @ replicate 50 NUL) = Some (2, INVALID, None)"
    by code_simp
  have d': "decode_formdata 14 (''pin=2&status=5'' @ replicate 50 NUL) = Some (2, 5, None)"
    by code_simp
  have det: "drv_detect example_card None (hw \<lparr>hw = [0, 0, 0, 0], calls = []\<rparr>) =
               (Some (''/dev/ttyUSB0'', 4), [0, 0, 0, 0])"
    by (simp add: example_card_def)
  have le: "unat (4 :: 8 word) \<le> MAX_NUM_RELAYS"
    by (simp add: MAX_NUM_RELAYS_def)
  have np: "INVALID \<noteq> PULSE" by (simp add: INVALID_def PULSE_def)
  have np': "(5 :: int) \<noteq> PULSE" by (simp add: PULSE_def)
  have ni': "(5 :: int) \<noteq> INVALID" by (simp add: INVALID_def)
  have nz: "(2 :: int) \<noteq> 0" by simp
  from status_dispatch [OF r n d det le np nz, of example_config default_rlabels]
  have a: "\<exists>rstate w'.
     process_http_request example_card example_config default_rlabels
       (request (''GET /gpio?pin=2&status=3 HTTP/1.1'' @ CRLF))
       \<lparr>hw = [0, 0, 0, 0], calls = []\<rparr> =
       Some (0, send_response example_card default_rlabels ''/gpio?pin=2&status=3''
                  ''/dev/ttyUSB0'' 4 rstate w', w')
     \<and> calls w' = Detect None # map (\<lambda>i. Get ''/dev/ttyUSB0'' i None) (relay_range 4)"
    by auto
  from status_dispatch [OF r' n d' det le np' nz, of example_config default_rlabels] ni'
  have b: "\<exists>rstate w'.
     process_http_request example_card example_config default_rlabels
       (request (''GET /gpio?pin=2&status=5 HTTP/1.1'' @ CRLF))
       \<lparr>hw = [0, 0, 0, 0], calls = []\<rparr> =
       Some (0, send_response example_card default_rlabels ''/gpio?pin=2&status=5''
                  ''/dev/ttyUSB0'' 4 rstate w', w')
     \<and> calls w' = Detect None # Set ''/dev/ttyUSB0'' 2 5 None #
                      map (\<lambda>i. Get ''/dev/ttyUSB0'' i None) (relay_range 4)"
    by auto
  from a b show ?thesis by (rule conjI)
qed

text \<open>
  C10. The claim that every POST request with a declared Content-Length of 64 or more is
  answered with status 500 fails. Line 430 looks for the text \<open>Content-Length:\<close> with
  \<open>strstr\<close>, anywhere in a header line and in this spelling only, and reads the number
  at byte 15 of that line; the last such line decides. A request that declares its 64
  bytes as \<open>content-length: 64\<close> is answered with status 200 after the card was detected
  and read; and after \<open>Content-Length: 64\<close>, a later header line that merely contains
  the text sets the length to 14, the first 14 bytes of the body are decoded, and relay 2
  is switched on.
\<close>

theorem content_length_spelling_counterexample:
  "process_http_request example_card example_config default_rlabels
     (request (''POST /gpio HTTP/1.1'' @ CRLF @ ''content-length: 64'' @ CRLF @ CRLF @
               ''pin=2&status=1&serial='' @ replicate 42 (CHR ''A'')))
     \<lparr>hw = [0, 0, 0, 0], calls = []\<rparr> =
   Some (0, [Headers 200 ''OK'' ''text/plain'', Text ''Relay 1:0<br>'', Text ''Relay 2:0<br>'',
             Text ''Relay 3:0<br>'', Text ''Relay 4:0<br>''],
         \<lparr>hw = [0, 0, 0, 0],
            calls = [Detect None, Get ''/dev/ttyUSB0'' 1 None, Get ''/dev/ttyUSB0'' 2 None,
                     Get ''/dev/ttyUSB0'' 3 None, Get ''/dev/ttyUSB0'' 4 None]\<rparr>)
   \<and> process_http_request example_card example_config default_rlabels
     (request (''POST /gpio HTTP/1.1'' @ CRLF @ ''Content-Length: 64'' @ CRLF @
               ''X-Upload-Hint: 14; Content-Length: ignored'' @ CRLF @ CRLF @
               ''pin=2&status=1&serial='' @ replicate 42 (CHR ''A'')))
     \<lparr>hw = [0, 0, 0, 0], calls = []\<rparr> =
   Some (0, [Headers 200 ''OK'' ''text/plain'', Text ''Relay 1:0<br>'', Text ''Relay 2:1<br>'',
             Text ''Relay 3:0<br>'', Text ''Relay 4:0<br>''],
         \<lparr>hw = [0, 1, 0, 0],
            calls = [Detect None, Set ''/dev/ttyUSB0'' 2 ON None,
                     Get ''/dev/ttyUSB0'' 1 None, Get ''/dev/ttyUSB0'' 2 None,
                     Get ''/dev/ttyUSB0'' 3 None, Get ''/dev/ttyUSB0'' 4 None]\<rparr>)"
  by code_simp

text \<open>
  C10, as amended. A POST request that consists of a request line of at most 255 bytes,
  header lines of at most 253 bytes each, an empty line and a body, in which exactly one
  header line contains the text \<open>Content-Length:\<close>, at its start and in this
  spelling, followed by a value that \<open>atoi\<close> reads as a number of 64 or more, the size
  of \<open>formdata\<close>: whatever the body is, it is not decoded, the answer is status 500
  with the error line, and the world is as before, so neither the detection nor any other
  call has reached the driver. A space and the decimal notation of the number is such a
  value (lemma \<open>decimal_Content_Length\<close>).
\<close>

theorem post_too_long_rejected:
  assumes "sock c = request_line method url version @
                      header_block (before @ [''Content-Length:'' @ v] @ after) @ body"
    and "strcasecmp_eq method ''POST''"
    and "url_token url" and "NUL \<notin> set version" and "LF \<notin> set version"
    and "length url + length version \<le> 247"
    and "\<forall>l \<in> set (before @ after). header_line l \<and> strstr l ''Content-Length:'' = None"
    and "header_line (''Content-Length:'' @ v)"
    and "atoi (v @ CRLF @ [NUL]) = Some n" and "64 \<le> n"
  shows "process_http_request D config rlabels c w =
           Some (0,
                 [Headers 500 ''Internal Error'' ''text/html'',
                  Text (''ERROR: Invalid Input. '' @ CRLF)],
                 w)"
proof -
  let ?fd = "(stack_array 64 NUL (stack_formdata c))[0 := NUL]"
  have h: "read_header 0 (header_block (before @ [''Content-Length:'' @ v] @ after) @ body) =
             Some (n, body)"
    by (rule read_header_block [OF assms(7,8,9)])
  have p: "read_httppost_data (header_block (before @ [''Content-Length:'' @ v] @ after) @ body)
             ?fd 64 = Some (- 1, ?fd)"
    unfolding read_httppost_data_def Let_def h using assms(10) by simp
  have r: "read_request c = Some (Inr (url, - 1, ?fd))"
    unfolding read_request_POST [OF assms(1-6)] p by simp
  show ?thesis
    unfolding process_http_request_def r by (simp add: answer_request_def send_headers_def)
qed

theorem post_too_long_rejected_witness:
  "process_http_request example_card example_config default_rlabels
     (request (''POST /gpio HTTP/1.1'' @ CRLF @ ''Host: relay'' @ CRLF @
               ''Content-Length: 64'' @ CRLF @ ''Connection: close'' @ CRLF @ CRLF @
               ''pin=1&status=1&serial='' @ replicate 42 (CHR ''A'')))
     \<lparr>hw = [0, 0, 0, 0], calls = []\<rparr> =
   Some (0,
         [Headers 500 ''Internal Error'' ''text/html'', Text (''ERROR: Invalid Input. '' @ CRLF)],
         \<lparr>hw = [0, 0, 0, 0], calls = []\<rparr>)"
proof -
  let ?body = "''pin=1&status=1&serial='' @ replicate 42 (CHR ''A'')"
  let ?c = "request (''POST /gpio HTTP/1.1'' @ CRLF @ ''Host: relay'' @ CRLF @
               ''Content-Length: 64'' @ CRLF @ ''Connection: close'' @ CRLF @ CRLF @ ?body)"
  have a: "sock ?c = request_line ''POST'' ''/gpio'' ''HTTP/1.1'' @
             header_block ([''Host: relay''] @ [''Content-Length:'' @ '' 64''] @ [''Connection: close''])
             @ ?body"
    by (simp add: request_def request_line_def header_block_def)
  have b: "strcasecmp_eq ''POST'' ''POST''"
    by (simp add: strcasecmp_eq_def)
  have c: "url_token ''/gpio''"
    by (simp add: url_token_def NUL_def LF_def)
  have d: "NUL \<notin> set ''HTTP/1.1''" "LF \<notin> set ''HTTP/1.1''"
    by (simp_all add: NUL_def LF_def)
  have e: "length ''/gpio'' + length ''HTTP/1.1'' \<le> 247" by simp
  have f: "\<forall>l \<in> set ([''Host: relay''] @ [''Connection: close'']).
             header_line l \<and> strstr l ''Content-Length:'' = None"
    by (simp add: header_line_def NUL_def LF_def)
  have g: "header_line (''Content-Length:'' @ '' 64'')"
    by (simp add: header_line_def NUL_def LF_def)
  have h: "atoi ('' 64'' @ CRLF @ [NUL]) = Some 64"
    by code_simp
  have i: "(64 :: int) \<le> 64" by simp
  show ?thesis
    by (rule post_too_long_rejected [OF a b c d e f g h i])
qed

text \<open>
  C8. The claim that every form-data string decodes to the same fields on both paths
  fails in three places. A string of 64 bytes is refused by \<open>read_httppost_data\<close>,
  which returns -1, while \<open>read_httpget_data\<close> copies 64 bytes without a terminator
  and runs \<open>strlen\<close> over the end of the array. For the string \<open>pin\<close>, where no byte
  follows the tag, the channel is read behind the terminator: from the padding of
  \<open>strncpy\<close> after a GET, from what the stack held after a POST. And a string with a
  space is cut at the space by the \<open>strtok\<close> of line 529 on the GET path only:
  \<open>serial=A B\<close> gives the serial \<open>A\<close> by GET and \<open>A B\<close> by POST.
\<close>

theorem get_post_differ_counterexample:
  "read_request (request (''POST /gpio HTTP/1.1'' @ CRLF @ ''Content-Length: 64'' @ CRLF @ CRLF @
                          ''pin=1&status=1&serial='' @ replicate 42 (CHR ''A''))) =
     Some (Inr (''/gpio'', - 1, replicate 64 NUL))
   \<and> read_request (request (''GET /gpio?pin=1&status=1&serial='' @ replicate 42 (CHR ''A'') @
                            '' HTTP/1.1'' @ CRLF)) = None
   \<and> read_request \<lparr>sock = ''GET /gpio?pin HTTP/1.1'' @ CRLF, stack_formdata = ''xxxx7'',
                     stack_rstate = []\<rparr> =
       Some (Inr (''/gpio?pin'', 3, ''pin'' @ replicate 61 NUL))
   \<and> decode_formdata 3 (''pin'' @ replicate 61 NUL) = Some (0, INVALID, None)
   \<and> read_request \<lparr>sock = ''POST /gpio HTTP/1.1'' @ CRLF @ ''Content-Length: 3'' @ CRLF @ CRLF @
                            ''pin'', stack_formdata = ''xxxx7'', stack_rstate = []\<rparr> =
       Some (Inr (''/gpio'', 3, ''pin'' @ [NUL] @ ''7'' @ replicate 59 NUL))
   \<and> decode_formdata 3 (''pin'' @ [NUL] @ ''7'' @ replicate 59 NUL) = Some (7, INVALID, None)
   \<and> read_request (request (''GET /gpio?pin=2&status=1&serial=A B HTTP/1.1'' @ CRLF)) =
       Some (Inr (''/gpio?pin=2&status=1&serial=A'', 23,
                  ''pin=2&status=1&serial=A'' @ replicate 41 NUL))
   \<and> decode_formdata 23 (''pin=2&status=1&serial=A'' @ replicate 41 NUL) =
       Some (2, ON, Some ''A'')
   \<and> read_request (request (''POST /gpio HTTP/1.1'' @ CRLF @ ''Content-Length: 25'' @ CRLF @ CRLF @
                            ''pin=2&status=1&serial=A B'')) =
       Some (Inr (''/gpio'', 25, ''pin=2&status=1&serial=A B'' @ replicate 39 NUL))
   \<and> decode_formdata 25 (''pin=2&status=1&serial=A B'' @ replicate 39 NUL) =
       Some (2, ON, Some ''A B'')"
  by code_simp

text \<open>
  C8, as amended. For every form-data string of fewer than 64 bytes, free of spaces, NUL
  and newline bytes, in which each of the three keys that occurs is followed by at least
  one byte: a GET request that carries the string after the \<open>?\<close> of its target, and a
  POST request that carries it as the body, with one header line \<open>Content-Length:\<close>
  whose value \<open>atoi\<close> reads as the length of the string, are read with the same
  length and decode to the same channel, status and serial, which are handed to the same
  code from the detection on. A key that does not occur leaves its field unset: channel 0,
  status INVALID, no serial. Both requests have a request line of at most 255 bytes free
  of NUL bytes, the path before the \<open>?\<close> has no \<open>?\<close> and no space, and the header
  lines of the POST request have at most 253 bytes each. A space and the decimal notation
  of the length is a value that \<open>atoi\<close> reads as the length (lemma
  \<open>decimal_Content_Length\<close>).
\<close>

theorem get_post_same_fields:
  assumes "length s < 64" and "NUL \<notin> set s" and "LF \<notin> set s" and "CHR '' '' \<notin> set s"
    and "tags_have_value s"
    and "sock cg = request_line mg (path @ ''?'' @ s) vg @ rest_g"
    and "strcasecmp_eq mg ''GET''"
    and "CHR ''?'' \<notin> set path" and "CHR '' '' \<notin> set path"
    and "NUL \<notin> set path" and "LF \<notin> set path"
    and "NUL \<notin> set vg" and "LF \<notin> set vg"
    and "length path + length s + length vg \<le> 247"
    and "sock cp = request_line mp url vp @
                     header_block (before @ [''Content-Length:'' @ v] @ after) @ s @ rest_p"
    and "strcasecmp_eq mp ''POST''"
    and "url_token url" and "NUL \<notin> set vp" and "LF \<notin> set vp"
    and "length url + length vp \<le> 247"
    and "\<forall>l \<in> set (before @ after). header_line l \<and> strstr l ''Content-Length:'' = None"
    and "header_line (''Content-Length:'' @ v)"
    and "atoi (v @ CRLF @ [NUL]) = Some (int (length s))"
  shows "\<exists>fg fp.
           read_request cg = Some (Inr (path @ ''?'' @ s, int (length s), fg))
         \<and> read_request cp = Some (Inr (url, int (length s), fp))
         \<and> decode_formdata (int (length s)) fg = decode_formdata (int (length s)) fp
         \<and> (\<forall>relay nstate serial.
               decode_formdata (int (length s)) fp = Some (relay, nstate, serial) \<longrightarrow>
               (strstr s RELAY_TAG = None \<longrightarrow> relay = 0) \<and>
               (strstr s STATE_TAG = None \<longrightarrow> nstate = INVALID) \<and>
               (strstr s SERIAL_TAG = None \<longrightarrow> serial = None))
         \<and> process_http_request D config rlabels cg w =
             (decode_formdata (int (length s)) fg \<bind>
                (\<lambda>flds. serve_request D config rlabels
                          (stack_array MAX_NUM_RELAYS 0 (stack_rstate cg))
                          (path @ ''?'' @ s) (int (length s)) flds w))
         \<and> process_http_request D config rlabels cp w =
             (decode_formdata (int (length s)) fp \<bind>
                (\<lambda>flds. serve_request D config rlabels
                          (stack_array MAX_NUM_RELAYS 0 (stack_rstate cp))
                          url (int (length s)) flds w))"
proof -
  let ?dg = "(stack_array 64 NUL (stack_formdata cg))[0 := NUL]"
  let ?dp = "(stack_array 64 NUL (stack_formdata cp))[0 := NUL]"
  let ?n = "int (length s)"
  let ?fg = "s @ NUL # replicate (63 - length s) NUL"
  let ?fp = "s @ NUL # drop (length s + 1) ?dp"
  have lg: "length ?dg = 64" and lp: "length ?dp = 64"
    by (simp_all add: length_stack_array)
  have sp: "CHR ''?'' \<noteq> CHR '' ''" "CHR ''?'' \<noteq> NUL" "CHR ''?'' \<noteq> LF"
    by (simp_all add: NUL_def LF_def)
  from assms(2,3,4,9,10,11) sp have ut: "url_token (path @ ''?'' @ s)"
    by (auto simp: url_token_def)
  from assms(14) have len: "length (path @ ''?'' @ s) + length vg \<le> 248" by simp
  have u: "path @ ''?'' @ s = path @ CHR ''?'' # s" by simp
  have "read_request cg =
          map_option (\<lambda>fd. Inr (path @ ''?'' @ s, fd)) (read_httpget_data (path @ ''?'' @ s) ?dg 64)"
    by (rule read_request_GET [OF assms(6,7) ut assms(12,13) len])
  also have "read_httpget_data (path @ ''?'' @ s) ?dg 64 = Some (?n, ?fg)"
    unfolding u by (rule read_httpget_data_short [OF assms(8,1,2) lg])
  finally have rg: "read_request cg = Some (Inr (path @ ''?'' @ s, ?n, ?fg))" by simp
  have h: "read_header 0 (header_block (before @ [''Content-Length:'' @ v] @ after) @ s @ rest_p) =
             Some (?n, s @ rest_p)"
    by (rule read_header_block [OF assms(21,22,23)])
  have "read_request cp =
          map_option (\<lambda>fd. Inr (url, fd))
            (read_httppost_data (header_block (before @ [''Content-Length:'' @ v] @ after) @ s @ rest_p)
               ?dp 64)"
    by (rule read_request_POST [OF assms(15-20)])
  also have "read_httppost_data (header_block (before @ [''Content-Length:'' @ v] @ after) @ s @ rest_p)
               ?dp 64 = Some (?n, ?fp)"
    by (rule read_httppost_data_short [OF h assms(1,3) lp])
  finally have rp: "read_request cp = Some (Inr (url, ?n, ?fp))" by simp
  have dg: "decode_formdata ?n ?fg = decode_formdata ?n (s @ [NUL])"
    by (rule decode_formdata_terminated [OF assms(2,5)])
  have dp: "decode_formdata ?n ?fp = decode_formdata ?n (s @ [NUL])"
    by (rule decode_formdata_terminated [OF assms(2,5)])
  have c: "cstr ?fp = s"
    using assms(2) by (simp add: cstr_terminated)
  have un: "(strstr s RELAY_TAG = None \<longrightarrow> relay = 0) \<and>
           (strstr s STATE_TAG = None \<longrightarrow> nstate = INVALID) \<and>
           (strstr s SERIAL_TAG = None \<longrightarrow> serial = None)"
    if "decode_formdata ?n ?fp = Some (relay, nstate, serial)"
    for relay nstate serial
    using decode_formdata_unset [OF that] unfolding c .
  have pg: "process_http_request D config rlabels cg w =
             (decode_formdata ?n ?fg \<bind>
                (\<lambda>flds. serve_request D config rlabels
                          (stack_array MAX_NUM_RELAYS 0 (stack_rstate cg))
                          (path @ ''?'' @ s) ?n flds w))"
    unfolding process_http_request_def rg by (simp add: answer_request_def)
  have pp: "process_http_request D config rlabels cp w =
             (decode_formdata ?n ?fp \<bind>
                (\<lambda>flds. serve_request D config rlabels
                          (stack_array MAX_NUM_RELAYS 0 (stack_rstate cp))
                          url ?n flds w))"
    unfolding process_http_request_def rp by (simp add: answer_request_def)
  from dg dp have e: "decode_formdata ?n ?fg = decode_formdata ?n ?fp" by simp
  from un have un': "\<forall>relay nstate serial.
               decode_formdata ?n ?fp = Some (relay, nstate, serial) \<longrightarrow>
               (strstr s RELAY_TAG = None \<longrightarrow> relay = 0) \<and>
               (strstr s STATE_TAG = None \<longrightarrow> nstate = INVALID) \<and>
               (strstr s SERIAL_TAG = None \<longrightarrow> serial = None)"
    by blast
  show ?thesis
    by (rule exI [of _ ?fg], rule exI [of _ ?fp], intro conjI) (rule rg rp e un' pg pp)+
qed

theorem get_post_same_fields_witness:
  "\<exists>fg fp.
     read_request (request (''GET /gpio?pin=2&status=1&serial=A0001 HTTP/1.1'' @ CRLF @ CRLF)) =
       Some (Inr (''/gpio?pin=2&status=1&serial=A0001'', 27, fg))
   \<and> read_request
         \<lparr>sock = ''POST /gpio HTTP/1.1'' @ CRLF @ ''Host: relay'' @ CRLF @
                   ''Content-Length: 27'' @ CRLF @ ''Connection: close'' @ CRLF @ CRLF @
                   ''pin=2&status=1&serial=A0001'',
            stack_formdata = ''0123456789012345678901234567890123456789012345678901234567890123'',
            stack_rstate = []\<rparr> =
       Some (Inr (''/gpio'', 27, fp))
   \<and> decode_formdata 27 fg = decode_formdata 27 fp
   \<and> decode_formdata 27 fg = Some (2, ON, Some ''A0001'')"
proof -
  let ?s = "''pin=2&status=1&serial=A0001''"
  let ?cg = "request (''GET /gpio?pin=2&status=1&serial=A0001 HTTP/1.1'' @ CRLF @ CRLF)"
  let ?cp = "\<lparr>sock = ''POST /gpio HTTP/1.1'' @ CRLF @ ''Host: relay'' @ CRLF @
                   ''Content-Length: 27'' @ CRLF @ ''Connection: close'' @ CRLF @ CRLF @
                   ''pin=2&status=1&serial=A0001'',
            stack_formdata = ''0123456789012345678901234567890123456789012345678901234567890123'',
            stack_rstate = []\<rparr>"
  have l: "length ?s < 64" by simp
  have n: "NUL \<notin> set ?s" by (simp add: NUL_def)
  have lf: "LF \<notin> set ?s" by (simp add: LF_def)
  have sp: "CHR '' '' \<notin> set ?s" by simp
  have t: "tags_have_value ?s" by code_simp
  have g1: "sock ?cg = request_line ''GET'' (''/gpio'' @ ''?'' @ ?s) ''HTTP/1.1'' @ CRLF"
    by (simp add: request_def request_line_def)
  have g2: "strcasecmp_eq ''GET'' ''GET''" by (simp add: strcasecmp_eq_def)
  have g3: "CHR ''?'' \<notin> set ''/gpio''" "CHR '' '' \<notin> set ''/gpio''"
    "NUL \<notin> set ''/gpio''" "LF \<notin> set ''/gpio''"
    by (simp_all add: NUL_def LF_def)
  have ver: "NUL \<notin> set ''HTTP/1.1''" "LF \<notin> set ''HTTP/1.1''"
    by (simp_all add: NUL_def LF_def)
  have g4: "length ''/gpio'' + length ?s + length ''HTTP/1.1'' \<le> 247" by simp
  have p1: "sock ?cp = request_line ''POST'' ''/gpio'' ''HTTP/1.1'' @
              header_block ([''Host: relay''] @ [''Content-Length:'' @ '' 27''] @ [''Connection: close''])
              @ ?s @ []"
    by (simp add: request_line_def header_block_def)
  have p2: "strcasecmp_eq ''POST'' ''POST''" by (simp add: strcasecmp_eq_def)
  have p3: "url_token ''/gpio''" by (simp add: url_token_def NUL_def LF_def)
  have p4: "length ''/gpio'' + length ''HTTP/1.1'' \<le> 247" by simp
  have p5: "\<forall>l \<in> set ([''Host: relay''] @ [''Connection: close'']).
              header_line l \<and> strstr l ''Content-Length:'' = None"
    by (simp add: header_line_def NUL_def LF_def)
  have p6: "header_line (''Content-Length:'' @ '' 27'')"
    by (simp add: header_line_def NUL_def LF_def)
  have p7: "atoi ('' 27'' @ CRLF @ [NUL]) = Some (int (length ?s))" by code_simp
  have k: "int (length ?s) = 27" by simp
  have q: "''/gpio'' @ ''?'' @ ?s = ''/gpio?pin=2&status=1&serial=A0001''" by simp
  from get_post_same_fields [OF l n lf sp t g1 g2 g3 ver g4 p1 p2 p3 ver p4 p5 p6 p7,
      of example_card example_config default_rlabels "\<lparr>hw = [0, 0, 0, 0], calls = []\<rparr>"]
  obtain fg fp where
    rg: "read_request ?cg = Some (Inr (''/gpio?pin=2&status=1&serial=A0001'', 27, fg))"
    and rp: "read_request ?cp = Some (Inr (''/gpio'', 27, fp))"
    and e: "decode_formdata 27 fg = decode_formdata 27 fp"
    unfolding k q by blast
  have "read_request ?cg =
          Some (Inr (''/gpio?pin=2&status=1&serial=A0001'', 27, ?s @ replicate 37 NUL))"
    by code_simp
  with rg have fg: "fg = ?s @ replicate 37 NUL" by simp
  have "decode_formdata 27 (?s @ replicate 37 NUL) = Some (2, ON, Some ''A0001'')"
    by code_simp
  with fg have v: "decode_formdata 27 fg = Some (2, ON, Some ''A0001'')" by simp
  from rg rp e v show ?thesis by blast
qed

section \<open>Properties of the command line\<close>

text \<open>
  Once the mode and the option \<open>-s\<close> are read, \<open>main\<close> detects the card and runs the
  \<open>switch\<close> on the number of arguments.
\<close>

lemma main_command:
  assumes "1 < length argv"
    and "argv ! 1 \<noteq> ''-d''" "argv ! 1 \<noteq> ''-D''" "argv ! 1 \<noteq> ''-i''"
    and "argv ! 1 = ''-s'' \<longrightarrow> 2 < length argv"
    and "drv_detect D (cli_serial argv) (hw w) = (r, h1)"
  shows "main D env argv w =
           (case r of
              None \<Rightarrow> Some (EXIT_FAILURE, no_device_lines (euid env),
                            \<lparr>hw = h1, calls = calls w @ [Detect (cli_serial argv)]\<rparr>)
            | Some (com_port, num_relays) \<Rightarrow>
                run_command D env argv (cli_argn argv) com_port (cli_serial argv)
                  \<lparr>hw = h1, calls = calls w @ [Detect (cli_serial argv)]\<rparr>)"
  using assms
  by (cases r) (auto simp: main_def crelay_detect_relay_card_def)

lemma run_command_set:
  assumes "length argv = 3 \<or> length argv = 5"
    and "arg argv (argn + 1) = Some state"
    and "arg argv argn = Some channel"
    and "atoi (channel @ [NUL]) = Some relay"
  shows "run_command D env argv argn com_port serial w =
           (if state = ''on'' \<or> state = ''ON'' then
              (case drv_set D com_port relay ON serial (hw w) of
                 (err, h2) \<Rightarrow>
                   Some (if err \<noteq> 0 then EXIT_FAILURE else EXIT_SUCCESS, [],
                         \<lparr>hw = h2, calls = calls w @ [Set com_port relay ON serial]\<rparr>))
            else if state = ''off'' \<or> state = ''OFF'' then
              (case drv_set D com_port relay OFF serial (hw w) of
                 (err, h2) \<Rightarrow>
                   Some (if err \<noteq> 0 then EXIT_FAILURE else EXIT_SUCCESS, [],
                         \<lparr>hw = h2, calls = calls w @ [Set com_port relay OFF serial]\<rparr>))
            else Some (EXIT_FAILURE, [Usage], w))"
proof -
  from assms(1) have n: "\<not> (length argv = 2 \<or> length argv = 4)" by auto
  obtain e1 h1 where s1: "drv_set D com_port relay ON serial (hw w) = (e1, h1)"
    by (cases "drv_set D com_port relay ON serial (hw w)")
  obtain e2 h2 where s2: "drv_set D com_port relay OFF serial (hw w) = (e2, h2)"
    by (cases "drv_set D com_port relay OFF serial (hw w)")
  show ?thesis
    unfolding run_command_def if_not_P [OF n] if_P [OF assms(1)]
    using assms(2-4) by (simp add: crelay_set_relay_def print_usage_def s1 s2)
qed

lemma run_command_get:
  assumes "length argv = 2 \<or> length argv = 4"
    and "arg argv argn = Some channel"
    and "atoi (channel @ [NUL]) = Some relay"
    and "drv_get D com_port relay serial (hw w) = ((rc, written), h2)"
  shows "run_command D env argv argn com_port serial w =
           Some (if rc = 0 then EXIT_SUCCESS else EXIT_FAILURE,
                 if rc = 0 then
                   [Printed (''Relay '' @ show_int relay @ '' is '' @
                      (if (case written of None \<Rightarrow> stack_main_rstate env | Some v \<Rightarrow> v) = ON
                       then ''on'' else ''off'') @ [LF])]
                 else [],
                 \<lparr>hw = h2, calls = calls w @ [Get com_port relay serial]\<rparr>)"
  unfolding run_command_def if_P [OF assms(1)]
  using assms(2-4) by (simp add: crelay_get_relay_def)

text \<open>
  C5. The claim that the state token is matched without regard to case fails: \<open>On\<close> is
  not accepted. The usage text is printed, the exit status is \<open>EXIT_FAILURE\<close>, and the
  driver is asked for nothing but the detection.
\<close>

theorem mixed_case_token_counterexample:
  "main example_card example_env [''crelay'', ''1'', ''On''] \<lparr>hw = [0, 0, 0, 0], calls = []\<rparr> =
     Some (EXIT_FAILURE, [Usage], \<lparr>hw = [0, 0, 0, 0], calls = [Detect None]\<rparr>)"
  by code_simp

text \<open>
  C5, as amended. For an argument vector \<open>CHANNEL STATE\<close> or \<open>-s SERIAL CHANNEL STATE\<close>
  and a detected card, the state token is compared with exactly four spellings: \<open>on\<close>
  and \<open>ON\<close> make the call of the driver's \<open>set\<close> with ON, \<open>off\<close> and \<open>OFF\<close> the call
  with OFF. Every other token, the mixed-case spellings included, prints the usage text
  and ends with \<open>EXIT_FAILURE\<close>, and no \<open>set\<close> is called.
\<close>

theorem cli_state_token:
  assumes "argv = [prog, channel, state] \<and> channel \<notin> {''-d'', ''-D'', ''-i'', ''-s''}
             \<and> serial = None
           \<or> argv = [prog, ''-s'', ser, channel, state] \<and> serial = Some ser"
    and "drv_detect D serial (hw w) = (Some (com_port, num_relays), h1)"
    and "atoi (channel @ [NUL]) = Some relay"
  shows "main D env argv w =
           (if state = ''on'' \<or> state = ''ON'' then
              (case drv_set D com_port relay ON serial h1 of
                 (err, h2) \<Rightarrow>
                   Some (if err \<noteq> 0 then EXIT_FAILURE else EXIT_SUCCESS, [],
                         \<lparr>hw = h2,
                            calls = calls w @ [Detect serial, Set com_port relay ON serial]\<rparr>))
            else if state = ''off'' \<or> state = ''OFF'' then
              (case drv_set D com_port relay OFF serial h1 of
                 (err, h2) \<Rightarrow>
                   Some (if err \<noteq> 0 then EXIT_FAILURE else EXIT_SUCCESS, [],
                         \<lparr>hw = h2,
                            calls = calls w @ [Detect serial, Set com_port relay OFF serial]\<rparr>))
            else Some (EXIT_FAILURE, [Usage], \<lparr>hw = h1, calls = calls w @ [Detect serial]\<rparr>))"
proof -
  from assms(1) have shape:
    "1 < length argv" "argv ! 1 \<noteq> ''-d''" "argv ! 1 \<noteq> ''-D''" "argv ! 1 \<noteq> ''-i''"
    "argv ! 1 = ''-s'' \<longrightarrow> 2 < length argv"
    "cli_serial argv = serial"
    "length argv = 3 \<or> length argv = 5"
    "arg argv (cli_argn argv + 1) = Some state"
    "arg argv (cli_argn argv) = Some channel"
    by (auto simp: cli_serial_def cli_argn_def arg_def)
  from assms(2) shape(6) have det: "drv_detect D (cli_serial argv) (hw w) = (Some (com_port, num_relays), h1)"
    by simp
  show ?thesis
    unfolding main_command [OF shape(1-5) det, of env] shape(6)
    by (simp add: run_command_set [OF shape(7,8,9) assms(3)] split: prod.splits)
qed

theorem cli_state_token_witness:
  "main example_card example_env [''crelay'', ''2'', ''ON''] \<lparr>hw = [0, 0, 0, 0], calls = []\<rparr> =
     Some (EXIT_SUCCESS, [],
           \<lparr>hw = [0, 1, 0, 0], calls = [Detect None, Set ''/dev/ttyUSB0'' 2 ON None]\<rparr>)
   \<and> main example_card example_env [''crelay'', ''-s'', ''A0001'', ''2'', ''off'']
       \<lparr>hw = [0, 1, 0, 0], calls = []\<rparr> =
     Some (EXIT_SUCCESS, [],
           \<lparr>hw = [0, 0, 0, 0],
              calls = [Detect (Some ''A0001''), Set ''/dev/ttyUSB0'' 2 OFF (Some ''A0001'')]\<rparr>)
   \<and> main example_card example_env [''crelay'', ''2'', ''oFF''] \<lparr>hw = [0, 0, 0, 0], calls = []\<rparr> =
     Some (EXIT_FAILURE, [Usage], \<lparr>hw = [0, 0, 0, 0], calls = [Detect None]\<rparr>)"
proof -
  have a1: "[''crelay'', ''2'', ''ON''] = [''crelay'', ''2'', ''ON'']
              \<and> ''2'' \<notin> {''-d'', ''-D'', ''-i'', ''-s''} \<and> (None :: string option) = None
            \<or> [''crelay'', ''2'', ''ON''] = [''crelay'', ''-s'', ser, ''2'', ''ON'']
              \<and> None = Some ser" for ser
    by simp
  have a2: "[''crelay'', ''-s'', ''A0001'', ''2'', ''off''] = [''crelay'', ''2'', ''off'']
              \<and> ''2'' \<notin> {''-d'', ''-D'', ''-i'', ''-s''} \<and> Some ''A0001'' = None
            \<or> [''crelay'', ''-s'', ''A0001'', ''2'', ''off''] = [''crelay'', ''-s'', ''A0001'', ''2'', ''off'']
              \<and> Some ''A0001'' = Some ''A0001''"
    by simp
  have a3: "[''crelay'', ''2'', ''oFF''] = [''crelay'', ''2'', ''oFF'']
              \<and> ''2'' \<notin> {''-d'', ''-D'', ''-i'', ''-s''} \<and> (None :: string option) = None
            \<or> [''crelay'', ''2'', ''oFF''] = [''crelay'', ''-s'', ser, ''2'', ''oFF'']
              \<and> None = Some ser" for ser
    by simp
  have d1: "drv_detect example_card None (hw \<lparr>hw = [0, 0, 0, 0], calls = []\<rparr>) =
              (Some (''/dev/ttyUSB0'', 4), [0, 0, 0, 0])"
    by (simp add: example_card_def)
  have d2: "drv_detect example_card (Some ''A0001'') (hw \<lparr>hw = [0, 1, 0, 0], calls = []\<rparr>) =
              (Some (''/dev/ttyUSB0'', 4), [0, 1, 0, 0])"
    by (simp add: example_card_def)
  have n: "atoi (''2'' @ [NUL]) = Some 2" by code_simp
  have s1: "drv_set example_card ''/dev/ttyUSB0'' 2 ON None [0, 0, 0, 0] = (0, [0, 1, 0, 0])"
    by (simp add: example_card_def ON_def)
  have s2: "drv_set example_card ''/dev/ttyUSB0'' 2 OFF (Some ''A0001'') [0, 1, 0, 0] = (0, [0, 0, 0, 0])"
    by (simp add: example_card_def OFF_def)
  show ?thesis
    using cli_state_token [OF a1 d1 n, of example_env]
      cli_state_token [OF a2 d2 n, of example_env]
      cli_state_token [OF a3 d1 n, of example_env]
    by (simp add: s1 s2)
qed

text \<open>
  C6. The claim that every malformed argument vector prints the usage text and ends with
  a non-zero exit status fails in two ways. Without arguments \<open>main\<close> prints the usage
  text and calls \<open>exit(EXIT_SUCCESS)\<close>. And when no card is detected, a vector with an
  unknown state token ends with \<open>EXIT_FAILURE\<close> before the token is looked at: the
  message about the device is printed, not the usage text.
\<close>

theorem no_arguments_counterexample:
  "main example_card example_env [''crelay''] \<lparr>hw = [0, 0, 0, 0], calls = []\<rparr> =
     Some (0, [Usage], \<lparr>hw = [0, 0, 0, 0], calls = []\<rparr>)
   \<and> main example_card example_env [''crelay'', ''1'', ''banana''] \<lparr>hw = [], calls = []\<rparr> =
     Some (1, [Printed (''** No compatible device detected **'' @ [LF]), Permission_hint],
           \<lparr>hw = [], calls = [Detect None]\<rparr>)"
  by code_simp

text \<open>
  C6, as amended. In the command line mode the exit status is \<open>EXIT_SUCCESS\<close>
  \<^item> when no argument is given, where the usage text is printed,
  \<^item> when \<open>-i\<close> finds cards,
  \<^item> when the \<open>get\<close> of a query returns 0, and when the \<open>set\<close> of a command returns 0;
  and it is not 0
  \<^item> when \<open>-i\<close> finds no card (-1),
  \<^item> when \<open>-s\<close> is the only argument, where the usage text is printed,
  \<^item> when no card is detected, which is checked before the other arguments are looked at
    and prints the message about the device, not the usage text,
  \<^item> when the state token of a vector of three or five entries is none of the four
    accepted spellings, where the usage text is printed,
  \<^item> when the \<open>get\<close> or the \<open>set\<close> of the driver fails.
  Vectors of more than five entries are not covered.
\<close>

theorem cli_exit_status:
  assumes "1 < length argv \<longrightarrow> argv ! 1 \<noteq> ''-d'' \<and> argv ! 1 \<noteq> ''-D''"
  shows "EXIT_FAILURE \<noteq> 0 \<and> EXIT_SUCCESS = 0
    \<and> (length argv = 1 \<longrightarrow> main D env argv w = Some (EXIT_SUCCESS, [Usage], w))
    \<and> (1 < length argv \<and> argv ! 1 = ''-i'' \<longrightarrow>
         (\<exists>out w'. main D env argv w =
            Some (if fst (drv_detect_all D (hw w)) = None then - 1 else EXIT_SUCCESS, out, w')))
    \<and> (length argv = 2 \<and> argv ! 1 = ''-s'' \<longrightarrow>
         main D env argv w = Some (EXIT_FAILURE, [Usage], w))
    \<and> (1 < length argv \<and> argv ! 1 \<noteq> ''-i'' \<and> (argv ! 1 = ''-s'' \<longrightarrow> 2 < length argv)
         \<and> fst (drv_detect D (cli_serial argv) (hw w)) = None \<longrightarrow>
         (\<exists>w'. main D env argv w = Some (EXIT_FAILURE, no_device_lines (euid env), w')))
    \<and> (\<forall>com_port num_relays h1 state.
          1 < length argv \<and> argv ! 1 \<noteq> ''-i'' \<and> (argv ! 1 = ''-s'' \<longrightarrow> 2 < length argv)
          \<and> drv_detect D (cli_serial argv) (hw w) = (Some (com_port, num_relays), h1)
          \<and> (length argv = 3 \<or> length argv = 5)
          \<and> arg argv (cli_argn argv + 1) = Some state
          \<and> state \<notin> {''on'', ''ON'', ''off'', ''OFF''} \<longrightarrow>
          (\<exists>w'. main D env argv w = Some (EXIT_FAILURE, [Usage], w')))
    \<and> (\<forall>com_port num_relays h1 state channel relay err h2.
          1 < length argv \<and> argv ! 1 \<noteq> ''-i'' \<and> (argv ! 1 = ''-s'' \<longrightarrow> 2 < length argv)
          \<and> drv_detect D (cli_serial argv) (hw w) = (Some (com_port, num_relays), h1)
          \<and> (length argv = 3 \<or> length argv = 5)
          \<and> arg argv (cli_argn argv + 1) = Some state
          \<and> state \<in> {''on'', ''ON'', ''off'', ''OFF''}
          \<and> arg argv (cli_argn argv) = Some channel
          \<and> atoi (channel @ [NUL]) = Some relay
          \<and> drv_set D com_port relay (if state \<in> {''on'', ''ON''} then ON else OFF)
                (cli_serial argv) h1 = (err, h2) \<longrightarrow>
          (\<exists>w'. main D env argv w =
             Some (if err \<noteq> 0 then EXIT_FAILURE else EXIT_SUCCESS, [], w')))
    \<and> (\<forall>com_port num_relays h1 channel relay rc written h2.
          1 < length argv \<and> argv ! 1 \<noteq> ''-i'' \<and> (argv ! 1 = ''-s'' \<longrightarrow> 2 < length argv)
          \<and> drv_detect D (cli_serial argv) (hw w) = (Some (com_port, num_relays), h1)
          \<and> (length argv = 2 \<or> length argv = 4)
          \<and> arg argv (cli_argn argv) = Some channel
          \<and> atoi (channel @ [NUL]) = Some relay
          \<and> drv_get D com_port relay (cli_serial argv) h1 = ((rc, written), h2) \<longrightarrow>
          (\<exists>out w'. main D env argv w =
             Some (if rc = 0 then EXIT_SUCCESS else EXIT_FAILURE, out, w')))"
proof (intro conjI allI impI)
  show "EXIT_FAILURE \<noteq> 0" by (simp add: EXIT_FAILURE_def)
  show "EXIT_SUCCESS = 0" by (simp add: EXIT_SUCCESS_def)
next
  assume "length argv = 1"
  then show "main D env argv w = Some (EXIT_SUCCESS, [Usage], w)"
    by (simp add: main_def print_usage_def)
next
  assume "1 < length argv \<and> argv ! 1 = ''-i''"
  then show "\<exists>out w'. main D env argv w =
            Some (if fst (drv_detect_all D (hw w)) = None then - 1 else EXIT_SUCCESS, out, w')"
    by (cases "drv_detect_all D (hw w)")
      (auto simp: main_def crelay_detect_all_relay_cards_def split: option.splits)
next
  assume "length argv = 2 \<and> argv ! 1 = ''-s''"
  then show "main D env argv w = Some (EXIT_FAILURE, [Usage], w)"
    by (simp add: main_def print_usage_def)
next
  assume a: "1 < length argv \<and> argv ! 1 \<noteq> ''-i'' \<and> (argv ! 1 = ''-s'' \<longrightarrow> 2 < length argv)
         \<and> fst (drv_detect D (cli_serial argv) (hw w)) = None"
  obtain h1 where "drv_detect D (cli_serial argv) (hw w) = (None, h1)"
    using a by (cases "drv_detect D (cli_serial argv) (hw w)") auto
  from main_command [OF _ _ _ _ _ this, of env] a assms
  show "\<exists>w'. main D env argv w = Some (EXIT_FAILURE, no_device_lines (euid env), w')"
    by simp
next
  fix com_port num_relays h1 state
  assume a: "1 < length argv \<and> argv ! 1 \<noteq> ''-i'' \<and> (argv ! 1 = ''-s'' \<longrightarrow> 2 < length argv)
          \<and> drv_detect D (cli_serial argv) (hw w) = (Some (com_port, num_relays), h1)
          \<and> (length argv = 3 \<or> length argv = 5)
          \<and> arg argv (cli_argn argv + 1) = Some state
          \<and> state \<notin> {''on'', ''ON'', ''off'', ''OFF''}"
  then have n: "\<not> (length argv = 2 \<or> length argv = 4)" by auto
  from a have det: "drv_detect D (cli_serial argv) (hw w) = (Some (com_port, num_relays), h1)"
    by simp
  from main_command [OF _ _ _ _ _ det, of env] a assms
  have "main D env argv w =
          run_command D env argv (cli_argn argv) com_port (cli_serial argv)
            \<lparr>hw = h1, calls = calls w @ [Detect (cli_serial argv)]\<rparr>"
    by simp
  also from a have "\<dots> = Some (EXIT_FAILURE, [Usage],
            \<lparr>hw = h1, calls = calls w @ [Detect (cli_serial argv)]\<rparr>)"
    unfolding run_command_def if_not_P [OF n]
    by (simp add: print_usage_def)
  finally show "\<exists>w'. main D env argv w = Some (EXIT_FAILURE, [Usage], w')"
    by blast
next
  fix com_port num_relays h1 state channel relay err h2
  assume a: "1 < length argv \<and> argv ! 1 \<noteq> ''-i'' \<and> (argv ! 1 = ''-s'' \<longrightarrow> 2 < length argv)
          \<and> drv_detect D (cli_serial argv) (hw w) = (Some (com_port, num_relays), h1)
          \<and> (length argv = 3 \<or> length argv = 5)
          \<and> arg argv (cli_argn argv + 1) = Some state
          \<and> state \<in> {''on'', ''ON'', ''off'', ''OFF''}
          \<and> arg argv (cli_argn argv) = Some channel
          \<and> atoi (channel @ [NUL]) = Some relay
          \<and> drv_set D com_port relay (if state \<in> {''on'', ''ON''} then ON else OFF)
                (cli_serial argv) h1 = (err, h2)"
  from a have det: "drv_detect D (cli_serial argv) (hw w) = (Some (com_port, num_relays), h1)"
    and len: "length argv = 3 \<or> length argv = 5"
    and st: "arg argv (cli_argn argv + 1) = Some state"
    and ch: "arg argv (cli_argn argv) = Some channel"
    and at: "atoi (channel @ [NUL]) = Some relay"
    by simp_all
  from main_command [OF _ _ _ _ _ det, of env] a assms
  have "main D env argv w =
          run_command D env argv (cli_argn argv) com_port (cli_serial argv)
            \<lparr>hw = h1, calls = calls w @ [Detect (cli_serial argv)]\<rparr>"
    by simp
  with a show "\<exists>w'. main D env argv w =
             Some (if err \<noteq> 0 then EXIT_FAILURE else EXIT_SUCCESS, [], w')"
    unfolding run_command_set [OF len st ch at]
    by auto
next
  fix com_port num_relays h1 channel relay rc written h2
  assume a: "1 < length argv \<and> argv ! 1 \<noteq> ''-i'' \<and> (argv ! 1 = ''-s'' \<longrightarrow> 2 < length argv)
          \<and> drv_detect D (cli_serial argv) (hw w) = (Some (com_port, num_relays), h1)
          \<and> (length argv = 2 \<or> length argv = 4)
          \<and> arg argv (cli_argn argv) = Some channel
          \<and> atoi (channel @ [NUL]) = Some relay
          \<and> drv_get D com_port relay (cli_serial argv) h1 = ((rc, written), h2)"
  from a have det: "drv_detect D (cli_serial argv) (hw w) = (Some (com_port, num_relays), h1)"
    and len: "length argv = 2 \<or> length argv = 4"
    and ch: "arg argv (cli_argn argv) = Some channel"
    and at: "atoi (channel @ [NUL]) = Some relay"
    and g: "drv_get D com_port relay (cli_serial argv)
              (hw \<lparr>hw = h1, calls = calls w @ [Detect (cli_serial argv)]\<rparr>) = ((rc, written), h2)"
    by simp_all
  from main_command [OF _ _ _ _ _ det, of env] a assms
  have "main D env argv w =
          run_command D env argv (cli_argn argv) com_port (cli_serial argv)
            \<lparr>hw = h1, calls = calls w @ [Detect (cli_serial argv)]\<rparr>"
    by simp
  then show "\<exists>out w'. main D env argv w =
             Some (if rc = 0 then EXIT_SUCCESS else EXIT_FAILURE, out, w')"
    unfolding run_command_get [OF len ch at g]
    by blast
qed

theorem cli_exit_status_witness:
  "main example_card example_env [''crelay''] \<lparr>hw = [0, 0, 0, 0], calls = []\<rparr> =
     Some (EXIT_SUCCESS, [Usage], \<lparr>hw = [0, 0, 0, 0], calls = []\<rparr>)
   \<and> main example_card example_env [''crelay'', ''-s''] \<lparr>hw = [0, 0, 0, 0], calls = []\<rparr> =
     Some (EXIT_FAILURE, [Usage], \<lparr>hw = [0, 0, 0, 0], calls = []\<rparr>)
   \<and> (\<exists>w'. main example_card example_env [''crelay'', ''1''] \<lparr>hw = [], calls = []\<rparr> =
          Some (EXIT_FAILURE, no_device_lines (euid example_env), w'))
   \<and> (\<exists>w'. main example_card example_env [''crelay'', ''1'', ''banana'']
            \<lparr>hw = [0, 0, 0, 0], calls = []\<rparr> = Some (EXIT_FAILURE, [Usage], w'))
   \<and> (\<exists>w'. main example_card example_env [''crelay'', ''9'', ''on'']
            \<lparr>hw = [0, 0, 0, 0], calls = []\<rparr> = Some (EXIT_FAILURE, [], w'))
   \<and> (\<exists>out w'. main example_card example_env [''crelay'', ''2'']
            \<lparr>hw = [0, 0, 0, 0], calls = []\<rparr> = Some (EXIT_SUCCESS, out, w'))"
proof -
  let ?w = "\<lparr>hw = [0 :: int, 0, 0, 0], calls = []\<rparr>"
  let ?e = "\<lparr>hw = [] :: int list, calls = []\<rparr>"
  have m1: "1 < length [''crelay''] \<longrightarrow> [''crelay''] ! 1 \<noteq> ''-d'' \<and> [''crelay''] ! 1 \<noteq> ''-D''"
    by simp
  have m2: "1 < length [''crelay'', ''-s''] \<longrightarrow>
              [''crelay'', ''-s''] ! 1 \<noteq> ''-d'' \<and> [''crelay'', ''-s''] ! 1 \<noteq> ''-D''"
    by simp
  have m3: "1 < length [''crelay'', ''1''] \<longrightarrow>
              [''crelay'', ''1''] ! 1 \<noteq> ''-d'' \<and> [''crelay'', ''1''] ! 1 \<noteq> ''-D''"
    by simp
  have m4: "1 < length [''crelay'', ''1'', ''banana''] \<longrightarrow>
              [''crelay'', ''1'', ''banana''] ! 1 \<noteq> ''-d'' \<and> [''crelay'', ''1'', ''banana''] ! 1 \<noteq> ''-D''"
    by simp
  have m5: "1 < length [''crelay'', ''9'', ''on''] \<longrightarrow>
              [''crelay'', ''9'', ''on''] ! 1 \<noteq> ''-d'' \<and> [''crelay'', ''9'', ''on''] ! 1 \<noteq> ''-D''"
    by simp
  have m6: "1 < length [''crelay'', ''2''] \<longrightarrow>
              [''crelay'', ''2''] ! 1 \<noteq> ''-d'' \<and> [''crelay'', ''2''] ! 1 \<noteq> ''-D''"
    by simp
  have c1: "main example_card example_env [''crelay''] ?w = Some (EXIT_SUCCESS, [Usage], ?w)"
    using cli_exit_status [OF m1, of example_card example_env ?w] by simp
  have c2: "main example_card example_env [''crelay'', ''-s''] ?w = Some (EXIT_FAILURE, [Usage], ?w)"
    using cli_exit_status [OF m2, of example_card example_env ?w] by simp
  have p3: "1 < length [''crelay'', ''1''] \<and> [''crelay'', ''1''] ! 1 \<noteq> ''-i''
         \<and> ([''crelay'', ''1''] ! 1 = ''-s'' \<longrightarrow> 2 < length [''crelay'', ''1''])
         \<and> fst (drv_detect example_card (cli_serial [''crelay'', ''1'']) (hw ?e)) = None"
    by (simp add: example_card_def cli_serial_def)
  have c3: "\<exists>w'. main example_card example_env [''crelay'', ''1''] ?e =
              Some (EXIT_FAILURE, no_device_lines (euid example_env), w')"
    by (rule cli_exit_status [OF m3, of example_card example_env ?e,
          THEN conjunct2, THEN conjunct2, THEN conjunct2, THEN conjunct2, THEN conjunct2,
          THEN conjunct1, rule_format, OF p3])
  have p4: "1 < length [''crelay'', ''1'', ''banana''] \<and> [''crelay'', ''1'', ''banana''] ! 1 \<noteq> ''-i''
          \<and> ([''crelay'', ''1'', ''banana''] ! 1 = ''-s'' \<longrightarrow> 2 < length [''crelay'', ''1'', ''banana''])
          \<and> drv_detect example_card (cli_serial [''crelay'', ''1'', ''banana'']) (hw ?w) =
                (Some (''/dev/ttyUSB0'', 4), [0, 0, 0, 0])
          \<and> (length [''crelay'', ''1'', ''banana''] = 3 \<or> length [''crelay'', ''1'', ''banana''] = 5)
          \<and> arg [''crelay'', ''1'', ''banana''] (cli_argn [''crelay'', ''1'', ''banana''] + 1) = Some ''banana''
          \<and> ''banana'' \<notin> {''on'', ''ON'', ''off'', ''OFF''}"
    by (simp add: example_card_def cli_serial_def cli_argn_def arg_def)
  have c4: "\<exists>w'. main example_card example_env [''crelay'', ''1'', ''banana''] ?w =
              Some (EXIT_FAILURE, [Usage], w')"
    by (rule cli_exit_status [OF m4, of example_card example_env ?w,
          THEN conjunct2, THEN conjunct2, THEN conjunct2, THEN conjunct2, THEN conjunct2,
          THEN conjunct2, THEN conjunct1, rule_format, OF p4])
  have at9: "atoi (''9'' @ [NUL]) = Some 9" by code_simp
  have p5: "1 < length [''crelay'', ''9'', ''on''] \<and> [''crelay'', ''9'', ''on''] ! 1 \<noteq> ''-i''
          \<and> ([''crelay'', ''9'', ''on''] ! 1 = ''-s'' \<longrightarrow> 2 < length [''crelay'', ''9'', ''on''])
          \<and> drv_detect example_card (cli_serial [''crelay'', ''9'', ''on'']) (hw ?w) =
                (Some (''/dev/ttyUSB0'', 4), [0, 0, 0, 0])
          \<and> (length [''crelay'', ''9'', ''on''] = 3 \<or> length [''crelay'', ''9'', ''on''] = 5)
          \<and> arg [''crelay'', ''9'', ''on''] (cli_argn [''crelay'', ''9'', ''on''] + 1) = Some ''on''
          \<and> ''on'' \<in> {''on'', ''ON'', ''off'', ''OFF''}
          \<and> arg [''crelay'', ''9'', ''on''] (cli_argn [''crelay'', ''9'', ''on'']) = Some ''9''
          \<and> atoi (''9'' @ [NUL]) = Some 9
          \<and> drv_set example_card ''/dev/ttyUSB0'' 9 (if ''on'' \<in> {''on'', ''ON''} then ON else OFF)
                (cli_serial [''crelay'', ''9'', ''on'']) [0, 0, 0, 0] = (- 1, [0, 0, 0, 0])"
    using at9 by (simp add: example_card_def cli_serial_def cli_argn_def arg_def)
  have c5: "\<exists>w'. main example_card example_env [''crelay'', ''9'', ''on''] ?w =
              Some (EXIT_FAILURE, [], w')"
    using cli_exit_status [OF m5, of example_card example_env ?w,
          THEN conjunct2, THEN conjunct2, THEN conjunct2, THEN conjunct2, THEN conjunct2,
          THEN conjunct2, THEN conjunct2, THEN conjunct1, rule_format, OF p5]
    by simp
  have at2: "atoi (''2'' @ [NUL]) = Some 2" by code_simp
  have p6: "1 < length [''crelay'', ''2''] \<and> [''crelay'', ''2''] ! 1 \<noteq> ''-i''
          \<and> ([''crelay'', ''2''] ! 1 = ''-s'' \<longrightarrow> 2 < length [''crelay'', ''2''])
          \<and> drv_detect example_card (cli_serial [''crelay'', ''2'']) (hw ?w) =
                (Some (''/dev/ttyUSB0'', 4), [0, 0, 0, 0])
          \<and> (length [''crelay'', ''2''] = 2 \<or> length [''crelay'', ''2''] = 4)
          \<and> arg [''crelay'', ''2''] (cli_argn [''crelay'', ''2'']) = Some ''2''
          \<and> atoi (''2'' @ [NUL]) = Some 2
          \<and> drv_get example_card ''/dev/ttyUSB0'' 2 (cli_serial [''crelay'', ''2'']) [0, 0, 0, 0] =
                ((0, Some 0), [0, 0, 0, 0])"
    using at2 by (simp add: example_card_def cli_serial_def cli_argn_def arg_def)
  have c6: "\<exists>out w'. main example_card example_env [''crelay'', ''2''] ?w =
              Some (EXIT_SUCCESS, out, w')"
    using cli_exit_status [OF m6, of example_card example_env ?w,
          THEN conjunct2, THEN conjunct2, THEN conjunct2, THEN conjunct2, THEN conjunct2,
          THEN conjunct2, THEN conjunct2, THEN conjunct2, rule_format, OF p6]
    by simp
  from c1 c2 c3 c4 c5 c6 show ?thesis by (intro conjI)
qed

text \<open>
  A vector of six entries takes the \<open>default\<close> branch of the \<open>switch\<close>, which prints
  the usage text and leaves through the \<open>exit(EXIT_SUCCESS)\<close> at the end of \<open>main\<close>.
\<close>

lemma six_arguments_example:
  "main example_card example_env [''crelay'', ''1'', ''on'', ''a'', ''b'', ''c'']
     \<lparr>hw = [0, 0, 0, 0], calls = []\<rparr> =
   Some (0, [Usage], \<lparr>hw = [0, 0, 0, 0], calls = [Detect None]\<rparr>)"
  by code_simp

section \<open>The channel index in both front ends\<close>

lemma http_channel_forwarded:
  assumes "read_request c = Some (Inr (url, formdatalen, formdata))"
    and "0 < formdatalen"
    and "decode_formdata formdatalen formdata = Some (relay, nstate, serial)"
    and "drv_detect D serial (hw w) = (Some (com_port, last_relay), h1)"
    and "unat last_relay \<le> MAX_NUM_RELAYS"
    and "relay \<noteq> 0"
    and "nstate = ON \<or> nstate = OFF \<or>
         nstate = PULSE \<and> 1 \<le> relay \<and> relay \<le> int MAX_NUM_RELAYS"
  shows "\<exists>rstate w' observed.
           process_http_request D config rlabels c w =
             Some (0, send_response D rlabels url com_port last_relay rstate w', w')
         \<and> calls w' = calls w @ [Detect serial]
               @ (if nstate = PULSE
                  then [Get com_port relay serial,
                        Set com_port relay (if observed = ON then OFF else ON) serial,
                        Sleep (unat (pulse_duration config)),
                        Set com_port relay (if observed = ON then ON else OFF) serial]
                  else [Set com_port relay nstate serial])
               @ map (\<lambda>i. Get com_port i serial) (relay_range last_relay)"
proof (cases "nstate = PULSE")
  case True
  with assms(7) have r: "1 \<le> relay" "relay \<le> int MAX_NUM_RELAYS"
    by (auto simp: ON_def OFF_def PULSE_def)
  obtain rc written h2 where g: "drv_get D com_port relay serial h1 = ((rc, written), h2)"
    by (metis prod.exhaust)
  from pulse_request_calls [OF assms(1,2) assms(3) [unfolded True] assms(4,5) r g refl,
      of config rlabels] True
  show ?thesis by auto
next
  case False
  with assms(7) have ni: "nstate \<noteq> INVALID"
    by (auto simp: ON_def OFF_def INVALID_def)
  from assms(2) have n: "0 \<le> formdatalen" by simp
  from set_request_calls [OF assms(1) n assms(3-5) False, of config rlabels] assms(2,6) ni False
  show ?thesis by auto
qed

lemma cli_channel_forwarded:
  assumes "argv = [prog, channel, state]"
    and "channel \<notin> {''-d'', ''-D'', ''-i'', ''-s''}"
    and "state \<in> {''on'', ''ON'', ''off'', ''OFF''}"
    and "drv_detect D None (hw w) = (Some (com_port, num_relays), h1)"
    and "atoi (channel @ [NUL]) = Some relay"
  shows "\<exists>code h2. main D env argv w =
           Some (code, [],
                 \<lparr>hw = h2,
                    calls = calls w @
                      [Detect None,
                       Set com_port relay (if state \<in> {''on'', ''ON''} then ON else OFF) None]\<rparr>)"
proof -
  from assms(1,2) have shape:
    "1 < length argv" "argv ! 1 \<noteq> ''-d''" "argv ! 1 \<noteq> ''-D''" "argv ! 1 \<noteq> ''-i''"
    "argv ! 1 = ''-s'' \<longrightarrow> 2 < length argv"
    "cli_serial argv = None"
    "length argv = 3 \<or> length argv = 5"
    "arg argv (cli_argn argv + 1) = Some state"
    "arg argv (cli_argn argv) = Some channel"
    by (auto simp: cli_serial_def cli_argn_def arg_def)
  from assms(4) shape(6) have
    det: "drv_detect D (cli_serial argv) (hw w) = (Some (com_port, num_relays), h1)"
    by simp
  obtain e1 g1 where s1: "drv_set D com_port relay ON None h1 = (e1, g1)"
    by (cases "drv_set D com_port relay ON None h1")
  obtain e2 g2 where s2: "drv_set D com_port relay OFF None h1 = (e2, g2)"
    by (cases "drv_set D com_port relay OFF None h1")
  from assms(3) show ?thesis
    unfolding main_command [OF shape(1-5) det, of env] shape(6)
    by (auto simp: run_command_set [OF shape(7,8,9) assms(5)] s1 s2)
qed

text \<open>
  C1. The claim that a channel outside the card's range fails without a call to the
  driver does not hold: channel 5 on a card with four relays reaches the driver's
  \<open>set\<close>, and the answer is the ordinary state table with status 200.
\<close>

theorem channel_out_of_range_counterexample:
  "process_http_request example_card example_config default_rlabels
     (request (''GET /gpio?pin=5&status=1 HTTP/1.1'' @ CRLF))
     \<lparr>hw = [0, 0, 0, 0], calls = []\<rparr> =
   Some (0, [Headers 200 ''OK'' ''text/plain'', Text ''Relay 1:0<br>'', Text ''Relay 2:0<br>'',
             Text ''Relay 3:0<br>'', Text ''Relay 4:0<br>''],
         \<lparr>hw = [0, 0, 0, 0],
            calls = [Detect None, Set ''/dev/ttyUSB0'' 5 1 None, Get ''/dev/ttyUSB0'' 1 None,
                     Get ''/dev/ttyUSB0'' 2 None, Get ''/dev/ttyUSB0'' 3 None,
                     Get ''/dev/ttyUSB0'' 4 None]\<rparr>)"
  by code_simp

text \<open>
  C1, as amended. Neither front end compares the channel with the relay count of the
  card. In \<open>process_http_request\<close>, for every channel other than 0, inside the range or
  not, a status of ON or OFF makes one call of the driver's \<open>set\<close> with the channel as it
  was decoded, and the pulse code makes the \<open>get\<close> and the two \<open>set\<close> calls with that
  channel, which here only has to index the array of \<open>MAX_NUM_RELAYS\<close> states; the
  answer is the state table in both cases. In \<open>main\<close>, the channel of \<open>CHANNEL on\<close> or
  \<open>CHANNEL off\<close> is handed to the driver's \<open>set\<close> as \<open>atoi\<close> returns it. What becomes
  of a channel outside the range is left to the driver.
\<close>

theorem channel_forwarded_unchecked:
  "(read_request c = Some (Inr (url, formdatalen, formdata))
      \<and> 0 < formdatalen
      \<and> decode_formdata formdatalen formdata = Some (relay, nstate, serial)
      \<and> drv_detect D serial (hw w) = (Some (com_port, last_relay), h1)
      \<and> unat last_relay \<le> MAX_NUM_RELAYS
      \<and> relay \<noteq> 0
      \<and> (nstate = ON \<or> nstate = OFF \<or>
          nstate = PULSE \<and> 1 \<le> relay \<and> relay \<le> int MAX_NUM_RELAYS) \<longrightarrow>
    (\<exists>rstate w' observed.
       process_http_request D config rlabels c w =
         Some (0, send_response D rlabels url com_port last_relay rstate w', w')
     \<and> calls w' = calls w @ [Detect serial]
           @ (if nstate = PULSE
              then [Get com_port relay serial,
                    Set com_port relay (if observed = ON then OFF else ON) serial,
                    Sleep (unat (pulse_duration config)),
                    Set com_port relay (if observed = ON then ON else OFF) serial]
              else [Set com_port relay nstate serial])
           @ map (\<lambda>i. Get com_port i serial) (relay_range last_relay)))
   \<and> (argv = [prog, channel, state]
      \<and> channel \<notin> {''-d'', ''-D'', ''-i'', ''-s''}
      \<and> state \<in> {''on'', ''ON'', ''off'', ''OFF''}
      \<and> drv_detect D None (hw w) = (Some (com_port, num_relays), h1)
      \<and> atoi (channel @ [NUL]) = Some relay \<longrightarrow>
    (\<exists>code h2. main D env argv w =
       Some (code, [],
             \<lparr>hw = h2,
                calls = calls w @
                  [Detect None,
                   Set com_port relay (if state \<in> {''on'', ''ON''} then ON else OFF) None]\<rparr>)))"
proof (intro conjI impI)
  assume a: "read_request c = Some (Inr (url, formdatalen, formdata))
      \<and> 0 < formdatalen
      \<and> decode_formdata formdatalen formdata = Some (relay, nstate, serial)
      \<and> drv_detect D serial (hw w) = (Some (com_port, last_relay), h1)
      \<and> unat last_relay \<le> MAX_NUM_RELAYS
      \<and> relay \<noteq> 0
      \<and> (nstate = ON \<or> nstate = OFF \<or>
          nstate = PULSE \<and> 1 \<le> relay \<and> relay \<le> int MAX_NUM_RELAYS)"
  then have
    a1: "read_request c = Some (Inr (url, formdatalen, formdata))" and
    a2: "0 < formdatalen" and
    a3: "decode_formdata formdatalen formdata = Some (relay, nstate, serial)" and
    a4: "drv_detect D serial (hw w) = (Some (com_port, last_relay), h1)" and
    a5: "unat last_relay \<le> MAX_NUM_RELAYS" and
    a6: "relay \<noteq> 0" and
    a7: "nstate = ON \<or> nstate = OFF \<or>
          nstate = PULSE \<and> 1 \<le> relay \<and> relay \<le> int MAX_NUM_RELAYS"
    by blast+
  show "\<exists>rstate w' observed.
       process_http_request D config rlabels c w =
         Some (0, send_response D rlabels url com_port last_relay rstate w', w')
     \<and> calls w' = calls w @ [Detect serial]
           @ (if nstate = PULSE
              then [Get com_port relay serial,
                    Set com_port relay (if observed = ON then OFF else ON) serial,
                    Sleep (unat (pulse_duration config)),
                    Set com_port relay (if observed = ON then ON else OFF) serial]
              else [Set com_port relay nstate serial])
           @ map (\<lambda>i. Get com_port i serial) (relay_range last_relay)"
    by (rule http_channel_forwarded [OF a1 a2 a3 a4 a5 a6 a7])
next
  assume b: "argv = [prog, channel, state]
      \<and> channel \<notin> {''-d'', ''-D'', ''-i'', ''-s''}
      \<and> state \<in> {''on'', ''ON'', ''off'', ''OFF''}
      \<and> drv_detect D None (hw w) = (Some (com_port, num_relays), h1)
      \<and> atoi (channel @ [NUL]) = Some relay"
  then have
    b1: "argv = [prog, channel, state]" and
    b2: "channel \<notin> {''-d'', ''-D'', ''-i'', ''-s''}" and
    b3: "state \<in> {''on'', ''ON'', ''off'', ''OFF''}" and
    b4: "drv_detect D None (hw w) = (Some (com_port, num_relays), h1)" and
    b5: "atoi (channel @ [NUL]) = Some relay"
    by blast+
  show "\<exists>code h2. main D env argv w =
       Some (code, [],
             \<lparr>hw = h2,
                calls = calls w @
                  [Detect None,
                   Set com_port relay (if state \<in> {''on'', ''ON''} then ON else OFF) None]\<rparr>)"
    by (rule cli_channel_forwarded [OF b1 b2 b3 b4 b5])
qed

theorem channel_forwarded_unchecked_witness:
  "(\<exists>rstate w'.
     process_http_request example_card example_config default_rlabels
       (request (''GET /gpio?pin=5&status=1 HTTP/1.1'' @ CRLF))
       \<lparr>hw = [0, 0, 0, 0], calls = []\<rparr> =
       Some (0, send_response example_card default_rlabels ''/gpio?pin=5&status=1''
                  ''/dev/ttyUSB0'' 4 rstate w', w')
     \<and> calls w' = Detect None # Set ''/dev/ttyUSB0'' 5 ON None #
                      map (\<lambda>i. Get ''/dev/ttyUSB0'' i None) (relay_range 4))
   \<and> (\<exists>code h2. main example_card example_env [''crelay'', ''9'', ''on'']
          \<lparr>hw = [0, 0, 0, 0], calls = []\<rparr> =
        Some (code, [], \<lparr>hw = h2, calls = [Detect None, Set ''/dev/ttyUSB0'' 9 ON None]\<rparr>))"
proof -
  let ?w = "\<lparr>hw = [0 :: int, 0, 0, 0], calls = []\<rparr>"
  have r: "read_request (request (''GET /gpio?pin=5&status=1 HTTP/1.1'' @ CRLF)) =
             Some (Inr (''/gpio?pin=5&status=1'', 14, ''pin=5&status=1'' @ replicate 50 NUL))"
    by code_simp
  have d: "decode_formdata 14 (''pin=5&status=1'' @ replicate 50 NUL) = Some (5, ON, None)"
    by code_simp
  have det: "drv_detect example_card None (hw ?w) = (Some (''/dev/ttyUSB0'', 4), [0, 0, 0, 0])"
    by (simp add: example_card_def)
  have le: "unat (4 :: 8 word) \<le> MAX_NUM_RELAYS"
    by (simp add: MAX_NUM_RELAYS_def)
  have np: "ON \<noteq> PULSE" by (simp add: ON_def PULSE_def)
  have h: "read_request (request (''GET /gpio?pin=5&status=1 HTTP/1.1'' @ CRLF)) =
             Some (Inr (''/gpio?pin=5&status=1'', 14, ''pin=5&status=1'' @ replicate 50 NUL))
      \<and> (0 :: int) < 14
      \<and> decode_formdata 14 (''pin=5&status=1'' @ replicate 50 NUL) = Some (5, ON, None)
      \<and> drv_detect example_card None (hw ?w) = (Some (''/dev/ttyUSB0'', 4), [0, 0, 0, 0])
      \<and> unat (4 :: 8 word) \<le> MAX_NUM_RELAYS
      \<and> (5 :: int) \<noteq> 0
      \<and> (ON = ON \<or> ON = OFF \<or> ON = PULSE \<and> 1 \<le> (5 :: int) \<and> 5 \<le> int MAX_NUM_RELAYS)"
    using r d det le by simp
  have at9: "atoi (''9'' @ [NUL]) = Some 9" by code_simp
  have k: "[''crelay'', ''9'', ''on''] = [''crelay'', ''9'', ''on'']
      \<and> ''9'' \<notin> {''-d'', ''-D'', ''-i'', ''-s''}
      \<and> ''on'' \<in> {''on'', ''ON'', ''off'', ''OFF''}
      \<and> drv_detect example_card None (hw ?w) = (Some (''/dev/ttyUSB0'', 4), [0, 0, 0, 0])
      \<and> atoi (''9'' @ [NUL]) = Some 9"
    using det at9 by simp
  have p1: "\<exists>rstate w'.
     process_http_request example_card example_config default_rlabels
       (request (''GET /gpio?pin=5&status=1 HTTP/1.1'' @ CRLF)) ?w =
       Some (0, send_response example_card default_rlabels ''/gpio?pin=5&status=1''
                  ''/dev/ttyUSB0'' 4 rstate w', w')
     \<and> calls w' = Detect None # Set ''/dev/ttyUSB0'' 5 ON None #
                      map (\<lambda>i. Get ''/dev/ttyUSB0'' i None) (relay_range 4)"
    using channel_forwarded_unchecked [THEN conjunct1, rule_format, OF h,
        of example_config default_rlabels] np
    by auto
  have p2: "\<exists>code h2. main example_card example_env [''crelay'', ''9'', ''on''] ?w =
        Some (code, [], \<lparr>hw = h2, calls = [Detect None, Set ''/dev/ttyUSB0'' 9 ON None]\<rparr>)"
    using channel_forwarded_unchecked [THEN conjunct2, rule_format, OF k, of example_env]
    by simp
  from p1 p2 show ?thesis by (rule conjI)
qed

section \<open>Properties of the daemon mode\<close>

text \<open>
  \<open>config_cb\<close> assigns the pulse duration for one pair of section and name only, so a
  configuration without that pair leaves the zero of \<open>memset\<close>, which \<open>main\<close> replaces
  by 1.
\<close>

lemma config_cb_pulse_duration:
  assumes "config_cb pconfig section name v = Some (rc, pconfig')"
    and "\<not> MATCH section name ''HTTP server'' ''pulse_duration''"
  shows "pulse_duration pconfig' = pulse_duration pconfig"
  using assms unfolding config_cb_def
  by (auto split: if_splits)

lemma conf_parse_pulse_duration:
  assumes "conf_parse cs pconfig = Some pconfig'"
    and "\<forall>(section, name, v) \<in> set cs. \<not> MATCH section name ''HTTP server'' ''pulse_duration''"
  shows "pulse_duration pconfig' = pulse_duration pconfig"
  using assms
proof (induction cs arbitrary: pconfig)
  case Nil
  then show ?case by simp
next
  case (Cons c cs)
  obtain sec nm v where c: "c = (sec, nm, v)" by (cases c)
  from Cons.prems(1) c obtain rc pconfig1 where
    cb: "config_cb pconfig sec nm v = Some (rc, pconfig1)"
    and rest: "conf_parse cs pconfig1 = Some pconfig'"
    by (auto split: option.splits)
  from Cons.prems(2) c have "\<not> MATCH sec nm ''HTTP server'' ''pulse_duration''" by simp
  from config_cb_pulse_duration [OF cb this] Cons.IH [OF rest] Cons.prems(2)
  show ?case by simp
qed

lemma daemon_setup_pulse_duration:
  assumes "daemon_setup env argv = Some (config, rlabels)"
  shows "pulse_duration config \<noteq> 0
         \<and> ((\<forall>(section, name, v) \<in> set (conf_calls env).
                \<not> MATCH section name ''HTTP server'' ''pulse_duration'') \<longrightarrow>
              pulse_duration config = 1)"
proof -
  from assms obtain config1 where
    p: "conf_parse (conf_calls env) zero_config = Some config1"
    and c: "config = (if pulse_duration config1 = 0 then config1\<lparr>pulse_duration := 1\<rparr> else config1)"
    by (auto simp: daemon_setup_def Let_def bind_eq_Some_conv)
  have z: "pulse_duration (zero_config :: 'a config_t) = 0"
    by (simp add: zero_config_def)
  from c have "pulse_duration config \<noteq> 0" by auto
  moreover have "pulse_duration config = 1"
    if "\<forall>(section, name, v) \<in> set (conf_calls env).
          \<not> MATCH section name ''HTTP server'' ''pulse_duration''"
    using conf_parse_pulse_duration [OF p that] z c by simp
  ultimately show ?thesis by blast
qed

text \<open>
  Every \<open>sleep\<close> that a request adds to the log has the pulse duration of the
  configuration as its argument.
\<close>

lemma get_into_sleeps:
  assumes "get_into D com_port i serial (rstate, w) = Some (rstate', w')"
  shows "\<forall>d. Sleep d \<in> set (calls w') \<longrightarrow> Sleep d \<in> set (calls w)"
  using assms
  by (auto simp: get_into_def crelay_get_relay_def split: if_splits prod.splits)

lemma read_all_relays_sleeps:
  assumes "read_all_relays D com_port serial is (rstate, w) = Some (rstate', w')"
  shows "\<forall>d. Sleep d \<in> set (calls w') \<longrightarrow> Sleep d \<in> set (calls w)"
  using assms
proof (induction "is" arbitrary: rstate w)
  case Nil
  then show ?case by simp
next
  case (Cons i "is")
  from Cons.prems obtain rstate1 w1 where
    g: "get_into D com_port i serial (rstate, w) = Some (rstate1, w1)"
    and r: "read_all_relays D com_port serial is (rstate1, w1) = Some (rstate', w')"
    by (auto split: option.splits)
  from get_into_sleeps [OF g] Cons.IH [OF r] show ?case by blast
qed

lemma relay_action_sleeps:
  assumes "relay_action D config com_port serial formdatalen relay nstate (rstate, w) =
             Some (rstate', w')"
  shows "\<forall>d. Sleep d \<in> set (calls w') \<longrightarrow>
           Sleep d \<in> set (calls w) \<or> d = unat (pulse_duration config)"
proof (cases "0 < formdatalen \<and> relay \<noteq> 0 \<and> nstate \<noteq> INVALID")
  case False
  with assms show ?thesis by (simp add: relay_action_none)
next
  case act: True
  show ?thesis
  proof (cases "nstate = PULSE")
    case False
    with act assms show ?thesis
      by (auto simp: relay_action_def crelay_set_relay_def split: prod.splits)
  next
    case True
    with act assms obtain rstate1 w1 where
      g: "get_into D com_port relay serial (rstate, w) = Some (rstate1, w1)"
      and rest: "(if rstate1 ! nat (relay - 1) = ON then
              (let (e1, w2) = crelay_set_relay D com_port relay OFF serial w1;
                   w3 = sleep (unat (pulse_duration config)) w2;
                   (e2, w4) = crelay_set_relay D com_port relay ON serial w3
               in Some (rstate1, w4))
            else
              (let (e1, w2) = crelay_set_relay D com_port relay ON serial w1;
                   w3 = sleep (unat (pulse_duration config)) w2;
                   (e2, w4) = crelay_set_relay D com_port relay OFF serial w3
               in Some (rstate1, w4))) = Some (rstate', w')"
      by (auto simp: relay_action_def bind_eq_Some_conv)
    from rest have "\<forall>d. Sleep d \<in> set (calls w') \<longrightarrow>
           Sleep d \<in> set (calls w1) \<or> d = unat (pulse_duration config)"
      by (auto simp: crelay_set_relay_def sleep_def Let_def split: if_splits prod.splits)
    with get_into_sleeps [OF g] show ?thesis by blast
  qed
qed

lemma serve_request_sleeps:
  assumes "serve_request D config rlabels rstate url formdatalen flds w = Some (rc, out, w')"
  shows "\<forall>d. Sleep d \<in> set (calls w') \<longrightarrow>
           Sleep d \<in> set (calls w) \<or> d = unat (pulse_duration config)"
proof -
  obtain relay nstate serial where f: "flds = (relay, nstate, serial)" by (cases flds)
  obtain r h1 where det: "drv_detect D serial (hw w) = (r, h1)"
    by (cases "drv_detect D serial (hw w)")
  show ?thesis
  proof (cases r)
    case None
    with assms f det show ?thesis
      by (auto simp: serve_request_def crelay_detect_relay_card_def)
  next
    case (Some p)
    obtain com_port last_relay where p: "p = (com_port, last_relay)" by (cases p)
    let ?w1 = "\<lparr>hw = h1, calls = calls w @ [Detect serial]\<rparr>"
    from assms f det Some p obtain rstate2 w2 rstate3 where
      a: "relay_action D config com_port serial formdatalen relay nstate (rstate, ?w1) =
            Some (rstate2, w2)"
      and r: "read_all_relays D com_port serial (relay_range last_relay) (rstate2, w2) =
            Some (rstate3, w')"
      by (auto simp: serve_request_detected bind_eq_Some_conv)
    from relay_action_sleeps [OF a] read_all_relays_sleeps [OF r]
    show ?thesis by auto
  qed
qed

lemma process_http_request_sleeps:
  assumes "process_http_request D config rlabels c w = Some (rc, out, w')"
  shows "\<forall>d. Sleep d \<in> set (calls w') \<longrightarrow>
           Sleep d \<in> set (calls w) \<or> d = unat (pulse_duration config)"
proof (cases "read_request c")
  case None
  with assms show ?thesis by (simp add: process_http_request_def)
next
  case (Some r)
  show ?thesis
  proof (cases r)
    case (Inl e)
    with Some assms show ?thesis by (auto simp: process_http_request_def)
  next
    case (Inr x)
    obtain url formdatalen formdata where x: "x = (url, formdatalen, formdata)" by (cases x)
    show ?thesis
    proof (cases "formdatalen < 0")
      case True
      with Some Inr x assms show ?thesis
        by (auto simp: process_http_request_def answer_request_def)
    next
      case False
      with Some Inr x assms obtain flds where
        "serve_request D config rlabels (stack_array MAX_NUM_RELAYS 0 (stack_rstate c))
           url formdatalen flds w = Some (rc, out, w')"
        by (auto simp: process_http_request_def answer_request_def bind_eq_Some_conv)
      then show ?thesis by (rule serve_request_sleeps)
    qed
  qed
qed

lemma accept_loop_sleeps:
  assumes "accept_loop D config rlabels cs w = Some (outs, w')"
  shows "\<forall>d. Sleep d \<in> set (calls w') \<longrightarrow>
           Sleep d \<in> set (calls w) \<or> d = unat (pulse_duration config)"
  using assms
proof (induction cs arbitrary: w outs)
  case Nil
  then show ?case by simp
next
  case (Cons c cs)
  from Cons.prems obtain rc out w1 outs1 where
    p: "process_http_request D config rlabels c w = Some (rc, out, w1)"
    and l: "accept_loop D config rlabels cs w1 = Some (outs1, w')"
    by (auto split: option.splits)
  from process_http_request_sleeps [OF p] Cons.IH [OF l] show ?case by blast
qed

text \<open>
  C9. At the end of the start-up of the daemon, with or without a configuration file, the
  pulse duration of \<open>config\<close> is greater than 0, and it is 1 when no call of
  \<open>config_cb\<close> has supplied a value. The accept loop serves every connection with this
  configuration: every \<open>sleep\<close> of the whole run has exactly this duration as its
  argument.
\<close>

theorem pulse_duration_in_force:
  assumes "daemon_mode D env argv w = Some (code, config, outs, w')"
  shows "(\<exists>rlabels. daemon_setup env argv = Some (config, rlabels))
    \<and> 0 < unat (pulse_duration config)
    \<and> ((\<forall>(section, name, v) \<in> set (conf_calls env).
           \<not> MATCH section name ''HTTP server'' ''pulse_duration'') \<longrightarrow>
         pulse_duration config = 1)
    \<and> (\<forall>d. Sleep d \<in> set (calls w') \<longrightarrow>
           Sleep d \<in> set (calls w) \<or> d = unat (pulse_duration config))"
proof -
  from assms obtain cfg rlabels where
    s0: "daemon_setup env argv = Some (cfg, rlabels)"
    and rest0: "(if \<not> bind_ok env then Some (EXIT_FAILURE, cfg, [], w)
       else if \<not> listen_ok env then Some (EXIT_FAILURE, cfg, [], w)
       else if argv ! 1 = ''-D'' \<and> \<not> daemon_ok env then Some (EXIT_FAILURE, cfg, [], w)
       else
         do {
           let (r, w1) = crelay_detect_relay_card D None w;
           (outs, w2) \<leftarrow> accept_loop D cfg rlabels (connections env) w1;
           Some (EXIT_SUCCESS, cfg, outs, w2)
         }) = Some (code, config, outs, w')"
    unfolding daemon_mode_def
    by (auto simp: bind_eq_Some_conv)
  from rest0 have eq: "cfg = config"
    by (auto simp: bind_eq_Some_conv split: if_splits prod.splits)
  note s = s0 [unfolded eq] and rest = rest0 [unfolded eq]
  note d = daemon_setup_pulse_duration [OF s]
  from d have pos: "0 < unat (pulse_duration config)"
    by (simp add: unat_gt_0)
  have sl: "\<forall>d. Sleep d \<in> set (calls w') \<longrightarrow>
           Sleep d \<in> set (calls w) \<or> d = unat (pulse_duration config)"
  proof (cases "w' = w")
    case True
    then show ?thesis by simp
  next
    case False
    obtain r h1 where det: "drv_detect D None (hw w) = (r, h1)"
      by (cases "drv_detect D None (hw w)")
    from False rest det have
      "accept_loop D config rlabels (connections env)
         \<lparr>hw = h1, calls = calls w @ [Detect None]\<rparr> = Some (outs, w')"
      by (auto simp: crelay_detect_relay_card_def bind_eq_Some_conv split: if_splits)
    from accept_loop_sleeps [OF this] show ?thesis by auto
  qed
  from s d pos sl show ?thesis by blast
qed

theorem pulse_duration_in_force_witness:
  "\<exists>code (config :: 8 config_t) outs w'.
     daemon_mode example_card
       (example_env\<lparr>conf_calls := [(''HTTP server'', ''pulse_duration'', ''0'')], conf_rc := 0,
                     connections := [request (''GET /gpio?pin=1&status=2 HTTP/1.1'' @ CRLF)]\<rparr>)
       [''crelay'', ''-d''] \<lparr>hw = [0, 0, 0, 0], calls = []\<rparr> = Some (code, config, outs, w')
     \<and> 0 < unat (pulse_duration config)
     \<and> (\<forall>d. Sleep d \<in> set (calls w') \<longrightarrow> d = unat (pulse_duration config))
     \<and> Sleep 1 \<in> set (calls w')"
proof -
  let ?env = "example_env\<lparr>conf_calls := [(''HTTP server'', ''pulse_duration'', ''0'')], conf_rc := 0,
                     connections := [request (''GET /gpio?pin=1&status=2 HTTP/1.1'' @ CRLF)]\<rparr>"
  let ?w = "\<lparr>hw = [0 :: int, 0, 0, 0], calls = []\<rparr>"
  have e: "map_option (\<lambda>(code, config :: 8 config_t, outs, w'). (code, pulse_duration config, calls w'))
             (daemon_mode example_card ?env [''crelay'', ''-d''] ?w) =
           Some (0, 1, [Detect None, Detect None, Get ''/dev/ttyUSB0'' 1 None,
                        Set ''/dev/ttyUSB0'' 1 1 None, Sleep 1, Set ''/dev/ttyUSB0'' 1 0 None,
                        Get ''/dev/ttyUSB0'' 1 None, Get ''/dev/ttyUSB0'' 2 None,
                        Get ''/dev/ttyUSB0'' 3 None, Get ''/dev/ttyUSB0'' 4 None])"
    by code_simp
  then obtain code and config :: "8 config_t" and outs w' where
    d: "daemon_mode example_card ?env [''crelay'', ''-d''] ?w = Some (code, config, outs, w')"
    and c: "calls w' = [Detect None, Detect None, Get ''/dev/ttyUSB0'' 1 None,
                        Set ''/dev/ttyUSB0'' 1 1 None, Sleep 1, Set ''/dev/ttyUSB0'' 1 0 None,
                        Get ''/dev/ttyUSB0'' 1 None, Get ''/dev/ttyUSB0'' 2 None,
                        Get ''/dev/ttyUSB0'' 3 None, Get ''/dev/ttyUSB0'' 4 None]"
    by (auto simp: map_option_case split: option.splits)
  from pulse_duration_in_force [OF d] have
    "0 < unat (pulse_duration config)"
    and "\<forall>d. Sleep d \<in> set (calls w') \<longrightarrow> Sleep d \<in> set (calls ?w) \<or> d = unat (pulse_duration config)"
    by blast+
  with d c show ?thesis by auto
qed

end
